theory Spec2Isabelle
  imports Main "HOL-Library.Sublist"
begin

section \<open>The transcription pipeline of \<open>main.py\<close> (\<open>Worker.run\<close>)\<close>

text \<open>
  \<open>Worker.run\<close> is one method that converts the input to a waveform file, uploads it,
  submits a batch recognition job, waits for it, downloads the results document and writes
  the transcript. Everything it calls outside the repository (the media library, the
  credential loader, the object store, the speech service, the local file system) is a
  field of the record \<open>world\<close>: the outcome of each call is data, so that every
  \<open>raise\<close> and every early \<open>return\<close> of the method is a branch of the model. The
  signals of the worker (\<open>progress\<close>, \<open>finished\<close>, \<open>error\<close>) and the calls it
  makes are recorded, in order, in a trace.

  Python's \<open>str\<close> is modelled as \<open>string\<close>. \<open>str.lower\<close> follows the Unicode
  tables of the interpreter and is a field of the world, \<open>str_lower\<close>; the function
  \<open>lower\<close> below, which maps the letters A-Z and leaves every other character alone,
  is what the sample worlds take for it. Paths follow \<open>posixpath\<close> (separator
  \<open>/\<close>). The file system is a map from the names under which files were created to
  their contents; the names that the operating system resolves to the same file as a given
  name are a field of the world, \<open>aliases\<close>, and \<open>os.path.exists\<close> looks under the name
  and under its aliases.
\<close>

subsection \<open>Strings and paths\<close>

definition newline :: char where
  "newline = CHR 0x0A"

definition lower_char :: "char \<Rightarrow> char" where
  "lower_char c =
     (case map_of (zip ''ABCDEFGHIJKLMNOPQRSTUVWXYZ'' ''abcdefghijklmnopqrstuvwxyz'') c of
        Some l \<Rightarrow> l
      | None \<Rightarrow> c)"

definition lower :: "string \<Rightarrow> string" where
  "lower s = map lower_char s"

text \<open>\<open>str.rfind\<close> for a one-character needle: the last index, or \<open>-1\<close>.\<close>

fun rfind :: "char \<Rightarrow> string \<Rightarrow> int" where
  "rfind c [] = -1"
| "rfind c (x # xs) =
     (let r = rfind c xs in if 0 \<le> r then r + 1 else if x = c then 0 else -1)"

text \<open>
  The loop of \<open>genericpath._splitext\<close> that skips the leading dots of the file name:
  \<^verbatim>\<open>
  while filenameIndex < dotIndex:
      if p[filenameIndex:filenameIndex+1] != extsep:
          return p[:dotIndex], p[dotIndex:]
      filenameIndex += 1
  \<close>
  It answers whether a character other than the dot stands between the two indices.
\<close>

function splitext_loop :: "string \<Rightarrow> nat \<Rightarrow> nat \<Rightarrow> bool" where
  "splitext_loop p filenameIndex dotIndex =
     (if filenameIndex < dotIndex
      then (if p ! filenameIndex \<noteq> CHR ''.'' then True
            else splitext_loop p (Suc filenameIndex) dotIndex)
      else False)"
  by pat_completeness auto
termination
  by (relation "measure (\<lambda>(p, i, d). d - i)") auto

declare splitext_loop.simps [simp del]

text \<open>\<open>os.path.splitext\<close> with \<open>sep = '/'\<close>, no \<open>altsep\<close>, \<open>extsep = '.'\<close>.\<close>

definition splitext :: "string \<Rightarrow> string \<times> string" where
  "splitext p =
     (let sepIndex = rfind CHR ''/'' p;
          dotIndex = rfind CHR ''.'' p
      in if dotIndex > sepIndex \<and> splitext_loop p (nat (sepIndex + 1)) (nat dotIndex)
         then (take (nat dotIndex) p, drop (nat dotIndex) p)
         else (p, []))"

text \<open>\<open>os.path.basename\<close>: what follows the last separator.\<close>

definition basename :: "string \<Rightarrow> string" where
  "basename p = drop (nat (rfind CHR ''/'' p + 1)) p"

text \<open>\<open>os.path.dirname\<close>: what precedes the last separator, without trailing separators
  unless it consists of separators only.\<close>

definition rstrip_sep :: "string \<Rightarrow> string" where
  "rstrip_sep s = rev (dropWhile (\<lambda>c. c = CHR ''/'') (rev s))"

definition dirname :: "string \<Rightarrow> string" where
  "dirname p =
     (let head = take (nat (rfind CHR ''/'' p + 1)) p
      in if head \<noteq> [] \<and> head \<noteq> replicate (length head) CHR ''/'' then rstrip_sep head
         else head)"

text \<open>
  \<open>re.match(r"gs://([^/]+)/(.*)", uri)\<close>: the match is anchored at the start only; the
  first group is the longest run without a slash and must not be empty, a slash must
  follow it, and the second group stops before the first line break (the dot does not
  match one).
\<close>

definition match_gs_uri :: "string \<Rightarrow> (string \<times> string) option" where
  "match_gs_uri u =
     (if take 5 u = ''gs://''
      then (let rest = drop 5 u;
                bucket = takeWhile (\<lambda>c. c \<noteq> CHR ''/'') rest;
                after = dropWhile (\<lambda>c. c \<noteq> CHR ''/'') rest
            in if bucket \<noteq> [] \<and> after \<noteq> []
               then Some (bucket, takeWhile (\<lambda>c. c \<noteq> newline) (tl after))
               else None)
      else None)"

subsection \<open>Data\<close>

text \<open>
  The failures of the method, named after the error kinds of the specification. Where the
  method emits a literal message and returns, the constructor has no argument:
  \<^item> \<open>UnsupportedFormat\<close>: "Unsupported file type. Please select a valid audio or video file."
  \<^item> \<open>MissingCredential\<close>: "Missing or invalid GCP credentials file."
  \<^item> \<open>MissingConfiguration\<close>: "Missing GCS_INPUT_BUCKET or GCS_OUTPUT_BUCKET settings in env.txt."
  \<^item> \<open>NoResultsError\<close>: "No results found for the input file."
  \<^item> \<open>MalformedOutputURI\<close>: "Failed to parse output URI."

  The others are exceptions caught by \<open>except Exception as e\<close>, named after the call that
  raised; the argument is \<open>str(e)\<close>. \<open>JobTimeout\<close> is the timeout raised by
  \<open>operation.result\<close>, \<open>IndexError\<close> the one raised by \<open>result.alternatives[0]\<close>.
\<close>

datatype error =
    ImportError string
  | UnsupportedFormat
  | ConversionError string
  | MissingCredential
  | CredentialError string
  | MissingConfiguration
  | StagingError string
  | SubmissionError string
  | JobTimeout
  | JobFailed string
  | NoResultsError
  | MalformedOutputURI
  | DownloadError string
  | ParseError string
  | IndexError
  | FileWriteError string
  | CleanupError string

datatype clip_kind = VideoFileClip | AudioFileClip

text \<open>What a local path holds. A waveform file has a sample rate, a codec and a channel count.\<close>

datatype local_file =
    OtherFile
  | WaveFile nat string nat
  | PartialFile
  | TextFile string string

text \<open>
  The outcome of opening the clip and writing its audio: the call raises (and may leave a
  partial file behind), or it writes the file; the channel count is the clip's own.
\<close>

datatype conversion = ConversionRaises string bool | Converted nat

text \<open>The request dictionary of \<open>batch_recognize\<close>.\<close>

record request =
  recognizer :: string
  auto_decoding_config :: bool
  language_codes :: "string list"
  model :: string
  request_files :: "string list"
  gcs_output_config_uri :: string

text \<open>
  One entry of \<open>response.results\<close>. The object is falsy when no field of it is set;
  \<open>other_fields_set\<close> stands for the fields other than \<open>uri\<close>.
\<close>

record file_result =
  uri :: string
  other_fields_set :: bool

text \<open>
  The remote job: the number of seconds after which it reaches a terminal state
  (\<open>None\<close>: never), and what it then is: failed with a detail, or succeeded with the
  map of results by input address.
\<close>

record job =
  terminal_after :: "nat option"
  job_outcome :: "string + (string \<Rightarrow> file_result option)"

datatype alternative = Alternative (transcript: string)

datatype recognition_result = Result (alternatives: "alternative list")

text \<open>The signals of the worker and the calls it makes, as they occur.\<close>

datatype event =
    Progress nat
  | Finished string
  | Error error
  | WriteAudiofile clip_kind string string nat string "string list"
  | LoadCredentials string
  | Upload string string string
  | BatchRecognize request
  | OperationResult nat
  | Download string string
  | WriteText string string string
  | Remove string

text \<open>Everything outside the method. A \<open>string option\<close> outcome is \<open>None\<close> when the
  call returns and \<open>Some (str e)\<close> when it raises.\<close>

record world =
  import_error :: "string option"
  environ :: "string \<Rightarrow> string option"
  files :: "string \<Rightarrow> local_file option"
  convert :: "clip_kind \<Rightarrow> string \<Rightarrow> conversion"
  from_service_account_file :: "string \<Rightarrow> string + string"
  uuid4_hex :: "nat \<Rightarrow> string"
  upload_from_filename :: "string \<Rightarrow> string \<Rightarrow> string \<Rightarrow> string option"
  batch_recognize :: "request \<Rightarrow> string + job"
  download_as_bytes :: "string \<Rightarrow> string \<Rightarrow> string + string"
  from_json :: "string \<Rightarrow> string + recognition_result list"
  write_text :: "string \<Rightarrow> string option"
  os_remove :: "string \<Rightarrow> string option"
  str_lower :: "string \<Rightarrow> string"
  aliases :: "string \<Rightarrow> string list"

record state =
  trace :: "event list"
  fs :: "string \<Rightarrow> local_file option"

type_synonym 'a step = "(error + 'a) \<times> state"

definition emit :: "event \<Rightarrow> state \<Rightarrow> state" where
  "emit e s = s\<lparr>trace := trace s @ [e]\<rparr>"

definition put_file :: "string \<Rightarrow> local_file \<Rightarrow> state \<Rightarrow> state" where
  "put_file p f s = s\<lparr>fs := (fs s)(p \<mapsto> f)\<rparr>"

definition delete_file :: "string \<Rightarrow> state \<Rightarrow> state" where
  "delete_file p s = s\<lparr>fs := (fs s)(p := None)\<rparr>"

text \<open>\<open>os.path.exists\<close>: a file is there under the name or under one of its aliases.\<close>

definition path_exists :: "world \<Rightarrow> state \<Rightarrow> string \<Rightarrow> bool" where
  "path_exists w s p = list_ex (\<lambda>q. fs s q \<noteq> None) (p # aliases w p)"

text \<open>Sequencing: a failure ends the method where it is; otherwise the next part runs.\<close>

definition and_then :: "'a step \<Rightarrow> ('a \<Rightarrow> state \<Rightarrow> 'b step) \<Rightarrow> 'b step" where
  "and_then r f = (case r of (Inl e, s) \<Rightarrow> (Inl e, s) | (Inr v, s) \<Rightarrow> f v s)"

subsection \<open>The parts of \<open>Worker.run\<close>\<close>

definition video_extensions :: "string set" where
  "video_extensions = {''.mp4'', ''.mov'', ''.avi'', ''.mkv'', ''.flv'', ''.wmv''}"

definition audio_extensions :: "string set" where
  "audio_extensions = {''.mp3'', ''.wav'', ''.flac'', ''.ogg'', ''.aac'', ''.m4a''}"

definition ffmpeg_params :: "string list" where
  "ffmpeg_params = [''-preset'', ''ultrafast'']"

definition temp_audio_file :: "string \<Rightarrow> string" where
  "temp_audio_file input_file = fst (splitext input_file) @ ''_temp.wav''"

definition output_file :: "string \<Rightarrow> string" where
  "output_file input_file = fst (splitext input_file) @ ''.txt''"

text \<open>Lines 120-125: the imports inside the \<open>try\<close>.\<close>

definition import_modules :: "world \<Rightarrow> state \<Rightarrow> unit step" where
  "import_modules w s = (case import_error w of Some msg \<Rightarrow> (Inl (ImportError msg), s) | None \<Rightarrow> (Inr (), s))"

text \<open>Lines 139-144 and 146-151: open the clip, write its audio at 16000 Hz as
  \<open>pcm_s16le\<close>, close it.\<close>

definition write_audiofile :: "world \<Rightarrow> clip_kind \<Rightarrow> string \<Rightarrow> state \<Rightarrow> unit step" where
  "write_audiofile w kind input_file s =
     (let temp = temp_audio_file input_file;
          s1 = emit (WriteAudiofile kind input_file temp 16000 ''pcm_s16le'' ffmpeg_params) s
      in case convert w kind input_file of
           ConversionRaises msg partial \<Rightarrow>
             (Inl (ConversionError msg), if partial then put_file temp PartialFile s1 else s1)
         | Converted channels \<Rightarrow>
             (Inr (), put_file temp (WaveFile 16000 ''pcm_s16le'' channels) s1))"

text \<open>Lines 127-155.\<close>

definition normalize :: "world \<Rightarrow> string \<Rightarrow> state \<Rightarrow> unit step" where
  "normalize w input_file s =
     (let ext = str_lower w (snd (splitext input_file));
          s1 = emit (Progress 5) s
      in if ext \<in> video_extensions
         then and_then (write_audiofile w VideoFileClip input_file s1)
                (\<lambda>_ s2. (Inr (), emit (Progress 33) s2))
         else if ext \<in> audio_extensions
         then and_then (write_audiofile w AudioFileClip input_file s1)
                (\<lambda>_ s2. (Inr (), emit (Progress 33) s2))
         else (Inl UnsupportedFormat, s1))"

text \<open>Lines 158-164: the credential path comes from the environment; the result is the
  project identifier of the credentials.\<close>

definition load_credentials :: "world \<Rightarrow> state \<Rightarrow> string step" where
  "load_credentials w s =
     (case environ w ''GOOGLE_APPLICATION_CREDENTIALS'' of
        None \<Rightarrow> (Inl MissingCredential, s)
      | Some credential_path \<Rightarrow>
          if credential_path = [] \<or> \<not> path_exists w s credential_path
          then (Inl MissingCredential, s)
          else (case from_service_account_file w credential_path of
                  Inl msg \<Rightarrow> (Inl (CredentialError msg), emit (LoadCredentials credential_path) s)
                | Inr project_id \<Rightarrow> (Inr project_id, emit (LoadCredentials credential_path) s)))"

text \<open>Lines 167-168.\<close>

definition gcs_input_bucket :: string where
  "gcs_input_bucket = ''speech_to_text_python''"

definition gcs_output_bucket :: string where
  "gcs_output_bucket = ''speech_to_text_python''"

text \<open>Lines 169-180: the check of the bucket names and the upload; the result is
  \<open>audio_uri\<close>.\<close>

definition unique_filename :: "world \<Rightarrow> string \<Rightarrow> string" where
  "unique_filename w input_file =
     basename (temp_audio_file input_file) @ ''-'' @ uuid4_hex w 0 @ ''.wav''"

definition audio_uri_of :: "world \<Rightarrow> string \<Rightarrow> string" where
  "audio_uri_of w input_file = ''gs://'' @ gcs_input_bucket @ ''/'' @ unique_filename w input_file"

definition stage_upload :: "world \<Rightarrow> string \<Rightarrow> state \<Rightarrow> string step" where
  "stage_upload w input_file s =
     (if gcs_input_bucket = [] \<or> gcs_output_bucket = []
      then (Inl MissingConfiguration, s)
      else (let temp = temp_audio_file input_file;
                s1 = emit (Upload gcs_input_bucket (unique_filename w input_file) temp) s
            in case upload_from_filename w gcs_input_bucket (unique_filename w input_file) temp of
                 Some msg \<Rightarrow> (Inl (StagingError msg), s1)
               | None \<Rightarrow> (Inr (audio_uri_of w input_file), emit (Progress 40) s1)))"

text \<open>Lines 183-200: the request.\<close>

definition build_request :: "world \<Rightarrow> string \<Rightarrow> string \<Rightarrow> request" where
  "build_request w project_id audio_uri =
     \<lparr>recognizer = ''projects/'' @ project_id @ ''/locations/global/recognizers/_'',
      auto_decoding_config = True,
      language_codes = [''id-ID''],
      model = ''long'',
      request_files = [audio_uri],
      gcs_output_config_uri =
        ''gs://'' @ gcs_output_bucket @ ''/'' @ (''transcript-'' @ uuid4_hex w 1 @ ''.json'')\<rparr>"

text \<open>Lines 183-205.\<close>

definition submit :: "world \<Rightarrow> string \<Rightarrow> string \<Rightarrow> state \<Rightarrow> job step" where
  "submit w project_id audio_uri s =
     (let request = build_request w project_id audio_uri;
          s1 = emit (BatchRecognize request) (emit (Progress 50) (emit (Progress 42) s))
      in case batch_recognize w request of
           Inl msg \<Rightarrow> (Inl (SubmissionError msg), s1)
         | Inr operation \<Rightarrow> (Inr operation, emit (Progress 55) s1))"

text \<open>
  \<open>operation.result(timeout)\<close>: the response of a job that is terminal before the
  deadline, the job's own failure, or the timeout. The wait polls and gives up at the
  deadline, so that a job which becomes terminal only then is not returned.
\<close>

definition operation_result ::
  "nat \<Rightarrow> job \<Rightarrow> error + (string \<Rightarrow> file_result option)" where
  "operation_result timeout operation =
     (case terminal_after operation of
        None \<Rightarrow> Inl JobTimeout
      | Some t \<Rightarrow>
          if t < timeout
          then (case job_outcome operation of
                  Inl detail \<Rightarrow> Inl (JobFailed detail)
                | Inr results \<Rightarrow> Inr results)
          else Inl JobTimeout)"

definition truthy :: "file_result \<Rightarrow> bool" where
  "truthy r = (uri r \<noteq> [] \<or> other_fields_set r)"

text \<open>Lines 206-213.\<close>

definition await :: "string \<Rightarrow> job \<Rightarrow> state \<Rightarrow> file_result step" where
  "await audio_uri operation s =
     (let s1 = emit (OperationResult 3600) s
      in case operation_result 3600 operation of
           Inl e \<Rightarrow> (Inl e, s1)
         | Inr results \<Rightarrow>
             (let s2 = emit (Progress 75) s1
              in case results audio_uri of
                   None \<Rightarrow> (Inl NoResultsError, s2)
                 | Some file_results \<Rightarrow>
                     if truthy file_results then (Inr file_results, s2)
                     else (Inl NoResultsError, s2)))"

text \<open>Lines 215-223.\<close>

definition fetch :: "world \<Rightarrow> file_result \<Rightarrow> state \<Rightarrow> recognition_result list step" where
  "fetch w file_results s =
     (case match_gs_uri (uri file_results) of
        None \<Rightarrow> (Inl MalformedOutputURI, s)
      | Some (output_bucket_name, output_object) \<Rightarrow>
          (let s1 = emit (Download output_bucket_name output_object) s
           in case download_as_bytes w output_bucket_name output_object of
                Inl msg \<Rightarrow> (Inl (DownloadError msg), s1)
              | Inr results_bytes \<Rightarrow>
                  (case from_json w results_bytes of
                     Inl msg \<Rightarrow> (Inl (ParseError msg), s1)
                   | Inr batch_results \<Rightarrow> (Inr batch_results, s1))))"

text \<open>Lines 225-227: the loop over the results, with the transcript so far.\<close>

fun assemble :: "string \<Rightarrow> recognition_result list \<Rightarrow> error + string" where
  "assemble text [] = Inr text"
| "assemble text (result # rest) =
     (case alternatives result of
        [] \<Rightarrow> Inl IndexError
      | a # _ \<Rightarrow> assemble (text @ transcript a @ [newline]) rest)"

text \<open>Lines 225-233.\<close>

definition write_transcript ::
  "world \<Rightarrow> string \<Rightarrow> recognition_result list \<Rightarrow> state \<Rightarrow> unit step" where
  "write_transcript w input_file batch_results s =
     (case assemble [] batch_results of
        Inl e \<Rightarrow> (Inl e, s)
      | Inr text \<Rightarrow>
          (let s1 = emit (WriteText (output_file input_file) ''utf-8'' text)
                      (emit (Progress 90) s)
           in case write_text w (output_file input_file) of
                Some msg \<Rightarrow> (Inl (FileWriteError msg), s1)
              | None \<Rightarrow>
                  (Inr (),
                   emit (Progress 100)
                     (put_file (output_file input_file) (TextFile ''utf-8'' text) s1))))"

text \<open>Lines 235-237.\<close>

definition cleanup :: "world \<Rightarrow> string \<Rightarrow> state \<Rightarrow> string step" where
  "cleanup w input_file s =
     (let temp = temp_audio_file input_file;
          message = ''Transcription saved to '' @ output_file input_file
      in if path_exists w s temp
         then (let s1 = emit (Remove temp) s
               in case os_remove w temp of
                    Some msg \<Rightarrow> (Inl (CleanupError msg), s1)
                  | None \<Rightarrow> (Inr message, emit (Finished message) (delete_file temp s1)))
         else (Inr message, emit (Finished message) s))"

subsection \<open>The method\<close>

definition initial :: "world \<Rightarrow> state" where
  "initial w = \<lparr>trace = [], fs = files w\<rparr>"

text \<open>The method up to the end of the conversion (line 155).\<close>

definition normalized :: "world \<Rightarrow> string \<Rightarrow> unit step" where
  "normalized w input_file =
     and_then (import_modules w (initial w)) (\<lambda>_. normalize w input_file)"

text \<open>The method up to the submission of the job (line 205); the result is the input
  address and the job.\<close>

definition submitted :: "world \<Rightarrow> string \<Rightarrow> (string \<times> job) step" where
  "submitted w input_file =
     and_then (normalized w input_file) (\<lambda>_ s.
     and_then (load_credentials w s) (\<lambda>project_id s.
     and_then (stage_upload w input_file s) (\<lambda>audio_uri s.
     and_then (submit w project_id audio_uri s) (\<lambda>operation s.
       (Inr (audio_uri, operation), s)))))"

text \<open>The method up to the parsed results document (line 223).\<close>

definition fetched :: "world \<Rightarrow> string \<Rightarrow> recognition_result list step" where
  "fetched w input_file =
     and_then (submitted w input_file) (\<lambda>(audio_uri, operation) s.
     and_then (await audio_uri operation s) (\<lambda>file_results.
       fetch w file_results))"

text \<open>The body of the \<open>try\<close>.\<close>

definition body :: "world \<Rightarrow> string \<Rightarrow> string step" where
  "body w input_file =
     and_then (fetched w input_file) (\<lambda>batch_results s.
     and_then (write_transcript w input_file batch_results s) (\<lambda>_.
       cleanup w input_file))"

text \<open>
  \<open>Worker.run\<close>: every failure, whether an early \<open>return\<close> or a caught exception,
  ends with the \<open>error\<close> signal.
\<close>

definition run :: "world \<Rightarrow> string \<Rightarrow> string step" where
  "run w input_file =
     (case body w input_file of
        (Inl e, s) \<Rightarrow> (Inl e, emit (Error e) s)
      | (Inr message, s) \<Rightarrow> (Inr message, s))"

text \<open>The progress values, and the signals, of a trace.\<close>

fun progress_values :: "event list \<Rightarrow> nat list" where
  "progress_values [] = []"
| "progress_values (Progress n # es) = n # progress_values es"
| "progress_values (_ # es) = progress_values es"

fun is_signal :: "event \<Rightarrow> bool" where
  "is_signal (Progress _) = True"
| "is_signal (Finished _) = True"
| "is_signal (Error _) = True"
| "is_signal _ = False"

definition signals :: "event list \<Rightarrow> event list" where
  "signals es = filter is_signal es"

fun is_upload :: "event \<Rightarrow> bool" where
  "is_upload (Upload _ _ _) = True"
| "is_upload _ = False"

fun is_download :: "event \<Rightarrow> bool" where
  "is_download (Download _ _) = True"
| "is_download _ = False"

fun is_write_text :: "event \<Rightarrow> bool" where
  "is_write_text (WriteText _ _ _) = True"
| "is_write_text _ = False"

text \<open>Whether the lower-cased extension of the input is in one of the two sets, and the
  kind of clip the method opens for it.\<close>

definition supported :: "world \<Rightarrow> string \<Rightarrow> bool" where
  "supported w i =
     (str_lower w (snd (splitext i)) \<in> video_extensions \<union> audio_extensions)"

definition clip_kind_of :: "world \<Rightarrow> string \<Rightarrow> clip_kind" where
  "clip_kind_of w i =
     (if str_lower w (snd (splitext i)) \<in> video_extensions then VideoFileClip
      else AudioFileClip)"

text \<open>
  The transcript in the words of the specification: for each segment, in the order of the
  document, the transcript of the alternative ranked first, followed by a line break.
\<close>

definition top_alternatives_joined :: "recognition_result list \<Rightarrow> string" where
  "top_alternatives_joined batch_results =
     concat (map (\<lambda>result. transcript (hd (alternatives result)) @ [newline]) batch_results)"

text \<open>The progress values of a complete run.\<close>

definition ticks :: "nat list" where
  "ticks = [5, 33, 40, 42, 50, 55, 75, 90, 100]"

text \<open>
  The calls and signals of a run in which nothing fails, in terms of the credential path,
  the project, the bucket and the object of the output address and the transcript.
\<close>

definition complete_trace ::
  "world \<Rightarrow> string \<Rightarrow> string \<Rightarrow> string \<Rightarrow> string \<Rightarrow> string \<Rightarrow> string \<Rightarrow> event list" where
  "complete_trace w i p project_id b ob text =
     [Progress 5,
      WriteAudiofile (clip_kind_of w i) i (temp_audio_file i) 16000 ''pcm_s16le'' ffmpeg_params,
      Progress 33,
      LoadCredentials p,
      Upload gcs_input_bucket (unique_filename w i) (temp_audio_file i),
      Progress 40, Progress 42, Progress 50,
      BatchRecognize (build_request w project_id (audio_uri_of w i)),
      Progress 55, OperationResult 3600, Progress 75,
      Download b ob,
      Progress 90,
      WriteText (output_file i) ''utf-8'' text,
      Progress 100,
      Remove (temp_audio_file i),
      Finished (''Transcription saved to '' @ output_file i)]"

text \<open>
  The shape of an output address in the words of the specification, bucket/object: the
  scheme \<open>gs://\<close>, the name of the bucket, which is not empty and has no slash, a slash,
  and the name of the object.
\<close>

definition bucket_object_shape :: "string \<Rightarrow> string \<Rightarrow> string \<Rightarrow> bool" where
  "bucket_object_shape address bucket ob =
     (address = ''gs://'' @ bucket @ ''/'' @ ob \<and> bucket \<noteq> [] \<and> CHR ''/'' \<notin> set bucket)"

subsection \<open>A sample world\<close>

text \<open>
  The end-to-end scenario of the specification: \<open>sample.mp3\<close>, credentials at
  \<open>key.json\<close>, a job that is done after 12 seconds, one segment "test transcript".
\<close>

definition sample_results :: "string \<Rightarrow> file_result option" where
  "sample_results a =
     (if a = ''gs://speech_to_text_python/sample_temp.wav-0a.wav''
      then Some \<lparr>uri = ''gs://speech_to_text_python/transcript-0b.json'',
                 other_fields_set = False\<rparr>
      else None)"

definition sample_world :: world where
  "sample_world =
     \<lparr>import_error = None,
      environ = [''GOOGLE_APPLICATION_CREDENTIALS'' \<mapsto> ''key.json'',
                 ''GCS_INPUT_BUCKET'' \<mapsto> ''in'',
                 ''GCS_OUTPUT_BUCKET'' \<mapsto> ''out''],
      files = [''sample.mp3'' \<mapsto> OtherFile, ''key.json'' \<mapsto> OtherFile],
      convert = (\<lambda>_ _. Converted 2),
      from_service_account_file = (\<lambda>_. Inr ''proj''),
      uuid4_hex = (\<lambda>n. if n = 0 then ''0a'' else ''0b''),
      upload_from_filename = (\<lambda>_ _ _. None),
      batch_recognize =
        (\<lambda>_. Inr \<lparr>terminal_after = Some 12, job_outcome = Inr sample_results\<rparr>),
      download_as_bytes = (\<lambda>_ _. Inr ''{}''),
      from_json = (\<lambda>_. Inr [Result [Alternative ''test transcript'']]),
      write_text = (\<lambda>_. None),
      os_remove = (\<lambda>_. None),
      str_lower = lower,
      aliases = (\<lambda>_. [])\<rparr>"

text \<open>Variations of the scenario: a document with the segments "hello" and "world"; a
  document whose second segment has no alternative; a job that is done only after two
  hours; an environment without the credential path; a credential path that names no file.\<close>

definition hello_world :: world where
  "hello_world =
     sample_world\<lparr>from_json :=
       (\<lambda>_. Inr [Result [Alternative ''hello''], Result [Alternative ''world'']])\<rparr>"

definition gap_world :: world where
  "gap_world =
     sample_world\<lparr>from_json := (\<lambda>_. Inr [Result [Alternative ''hello''], Result []])\<rparr>"

definition late_world :: world where
  "late_world =
     sample_world\<lparr>batch_recognize :=
       (\<lambda>_. Inr \<lparr>terminal_after = Some 7200, job_outcome = Inr sample_results\<rparr>)\<rparr>"

definition bare_world :: world where
  "bare_world = sample_world\<lparr>environ := Map.empty\<rparr>"

definition keyless_world :: world where
  "keyless_world = sample_world\<lparr>files := [''sample.mp3'' \<mapsto> OtherFile]\<rparr>"

section \<open>Properties\<close>

subsection \<open>The state and the sequencing\<close>

lemma trace_emit [simp]: "trace (emit e s) = trace s @ [e]"
  by (simp add: emit_def)

lemma fs_emit [simp]: "fs (emit e s) = fs s"
  by (simp add: emit_def)

lemma trace_put_file [simp]: "trace (put_file p f s) = trace s"
  by (simp add: put_file_def)

lemma fs_put_file [simp]: "fs (put_file p f s) = (fs s)(p \<mapsto> f)"
  by (simp add: put_file_def)

lemma trace_delete_file [simp]: "trace (delete_file p s) = trace s"
  by (simp add: delete_file_def)

lemma fs_delete_file [simp]: "fs (delete_file p s) = (fs s)(p := None)"
  by (simp add: delete_file_def)

lemma path_exists_emit [simp]: "path_exists w (emit e s) p = path_exists w s p"
  by (simp add: path_exists_def)

lemma and_then_Inr:
  "and_then r f = (Inr v, s) \<longleftrightarrow> (\<exists>u s0. r = (Inr u, s0) \<and> f u s0 = (Inr v, s))"
  by (cases r) (auto simp: and_then_def split: sum.splits)

lemma and_then_Inl:
  "and_then r f = (Inl e, s) \<longleftrightarrow>
     r = (Inl e, s) \<or> (\<exists>u s0. r = (Inr u, s0) \<and> f u s0 = (Inl e, s))"
  by (cases r) (auto simp: and_then_def split: sum.splits)

lemma import_modules_Inr: "import_modules w s = (Inr u, s') \<Longrightarrow> s' = s"
  by (cases "import_error w") (simp_all add: import_modules_def)

lemma import_modules_Inl:
  "import_modules w s = (Inl e, s') \<Longrightarrow> s' = s \<and> (\<exists>msg. e = ImportError msg)"
  by (cases "import_error w") (auto simp add: import_modules_def)

lemma write_audiofile_Inr:
  "write_audiofile w kind i s = (Inr u, s') \<Longrightarrow>
     trace s' = trace s @
       [WriteAudiofile kind i (temp_audio_file i) 16000 ''pcm_s16le'' ffmpeg_params] \<and>
     (\<exists>ch. convert w kind i = Converted ch \<and>
       fs s' = (fs s)(temp_audio_file i \<mapsto> WaveFile 16000 ''pcm_s16le'' ch))"
  by (cases "convert w kind i") (simp_all add: write_audiofile_def Let_def, fastforce)

lemma write_audiofile_Inl:
  "write_audiofile w kind i s = (Inl e, s') \<Longrightarrow>
     trace s' = trace s @
       [WriteAudiofile kind i (temp_audio_file i) 16000 ''pcm_s16le'' ffmpeg_params] \<and>
     (\<exists>msg. e = ConversionError msg) \<and>
     (fs s' = fs s \<or> fs s' = (fs s)(temp_audio_file i \<mapsto> PartialFile))"
  by (cases "convert w kind i") (simp_all add: write_audiofile_def Let_def, fastforce)

subsection \<open>The conversion\<close>

lemma normalize_alt:
  "normalize w i s =
     (if supported w i
      then and_then (write_audiofile w (clip_kind_of w i) i (emit (Progress 5) s))
             (\<lambda>_ s2. (Inr (), emit (Progress 33) s2))
      else (Inl UnsupportedFormat, emit (Progress 5) s))"
  by (simp add: normalize_def supported_def clip_kind_of_def Let_def)

lemma normalize_Inr:
  assumes "normalize w i s = (Inr u, s')"
  shows "supported w i \<and>
     trace s' = trace s @ [Progress 5,
       WriteAudiofile (clip_kind_of w i) i (temp_audio_file i) 16000 ''pcm_s16le'' ffmpeg_params,
       Progress 33] \<and>
     (\<exists>ch. convert w (clip_kind_of w i) i = Converted ch \<and>
       fs s' = (fs s)(temp_audio_file i \<mapsto> WaveFile 16000 ''pcm_s16le'' ch))"
proof (cases "supported w i")
  case True
  with assms obtain s1 where
    w: "write_audiofile w (clip_kind_of w i) i (emit (Progress 5) s) = (Inr (), s1)"
    and s': "s' = emit (Progress 33) s1"
    by (auto simp: normalize_alt and_then_Inr)
  from write_audiofile_Inr [OF w] True s' show ?thesis by simp
next
  case False
  with assms show ?thesis by (simp add: normalize_alt)
qed

lemma normalize_Inl:
  assumes "normalize w i s = (Inl e, s')"
  shows "(\<not> supported w i \<and> e = UnsupportedFormat \<and> trace s' = trace s @ [Progress 5] \<and>
      fs s' = fs s) \<or>
     (supported w i \<and> (\<exists>msg. e = ConversionError msg) \<and>
      trace s' = trace s @ [Progress 5,
        WriteAudiofile (clip_kind_of w i) i (temp_audio_file i) 16000 ''pcm_s16le'' ffmpeg_params] \<and>
      (fs s' = fs s \<or> fs s' = (fs s)(temp_audio_file i \<mapsto> PartialFile)))"
proof (cases "supported w i")
  case True
  with assms have
    "write_audiofile w (clip_kind_of w i) i (emit (Progress 5) s) = (Inl e, s')"
    by (simp add: normalize_alt and_then_Inl)
  from write_audiofile_Inl [OF this] True show ?thesis by simp
next
  case False
  with assms show ?thesis by (auto simp add: normalize_alt)
qed

lemma normalized_Inr:
  assumes "normalized w i = (Inr u, s)"
  shows "import_error w = None \<and> supported w i \<and>
     trace s = [Progress 5,
       WriteAudiofile (clip_kind_of w i) i (temp_audio_file i) 16000 ''pcm_s16le'' ffmpeg_params,
       Progress 33] \<and>
     (\<exists>ch. convert w (clip_kind_of w i) i = Converted ch \<and>
       fs s = (files w)(temp_audio_file i \<mapsto> WaveFile 16000 ''pcm_s16le'' ch))"
proof -
  from assms obtain s0 where
    i: "import_modules w (initial w) = (Inr (), s0)" and n: "normalize w i s0 = (Inr u, s)"
    by (auto simp: normalized_def and_then_Inr)
  from i have "s0 = initial w" "import_error w = None"
    by (cases "import_error w"; simp add: import_modules_def)+
  with normalize_Inr [OF n] show ?thesis by (simp add: initial_def)
qed

lemma normalized_Inl:
  assumes "normalized w i = (Inl e, s)"
  shows "(trace s = [] \<and> fs s = files w \<and> (\<exists>msg. e = ImportError msg \<and> import_error w = Some msg)) \<or>
     (import_error w = None \<and> \<not> supported w i \<and> e = UnsupportedFormat \<and> trace s = [Progress 5] \<and>
      fs s = files w) \<or>
     (import_error w = None \<and> supported w i \<and> (\<exists>msg. e = ConversionError msg) \<and>
      trace s = [Progress 5,
        WriteAudiofile (clip_kind_of w i) i (temp_audio_file i) 16000 ''pcm_s16le'' ffmpeg_params] \<and>
      (fs s = files w \<or> fs s = (files w)(temp_audio_file i \<mapsto> PartialFile)))"
proof (cases "import_error w")
  case None
  then have "import_modules w (initial w) = (Inr (), initial w)"
    by (simp add: import_modules_def)
  with assms have "normalize w i (initial w) = (Inl e, s)"
    by (simp add: normalized_def and_then_def)
  from normalize_Inl [OF this] None show ?thesis by (simp add: initial_def)
next
  case (Some msg)
  then have "import_modules w (initial w) = (Inl (ImportError msg), initial w)"
    by (simp add: import_modules_def)
  with assms Some show ?thesis
    by (auto simp add: normalized_def and_then_def initial_def)
qed

subsection \<open>Credentials, upload and submission\<close>

lemma load_credentials_Inr:
  "load_credentials w s = (Inr project_id, s') \<Longrightarrow>
     \<exists>p. environ w ''GOOGLE_APPLICATION_CREDENTIALS'' = Some p \<and> p \<noteq> [] \<and> path_exists w s p \<and>
       from_service_account_file w p = Inr project_id \<and>
       trace s' = trace s @ [LoadCredentials p] \<and> fs s' = fs s"
  apply (cases "environ w ''GOOGLE_APPLICATION_CREDENTIALS''")
   apply (simp add: load_credentials_def)
  subgoal for p
    by (cases "from_service_account_file w p")
       (auto simp add: load_credentials_def split: if_splits)
  done

lemma load_credentials_Inl:
  "load_credentials w s = (Inl e, s') \<Longrightarrow>
     fs s' = fs s \<and>
     ((e = MissingCredential \<and> trace s' = trace s) \<or>
      (\<exists>p msg. e = CredentialError msg \<and> trace s' = trace s @ [LoadCredentials p]))"
  apply (cases "environ w ''GOOGLE_APPLICATION_CREDENTIALS''")
   apply (simp add: load_credentials_def)
  subgoal for p
    by (cases "from_service_account_file w p")
       (auto simp add: load_credentials_def split: if_splits)
  done

lemma stage_upload_Inr:
  "stage_upload w i s = (Inr a, s') \<Longrightarrow>
     a = audio_uri_of w i \<and> fs s' = fs s \<and>
     trace s' = trace s @
       [Upload gcs_input_bucket (unique_filename w i) (temp_audio_file i), Progress 40]"
  by (cases "upload_from_filename w gcs_input_bucket (unique_filename w i) (temp_audio_file i)")
     (auto simp add: stage_upload_def Let_def split: if_splits)

lemma stage_upload_Inl:
  "stage_upload w i s = (Inl e, s') \<Longrightarrow>
     fs s' = fs s \<and> (\<exists>msg. e = StagingError msg) \<and>
     trace s' = trace s @ [Upload gcs_input_bucket (unique_filename w i) (temp_audio_file i)]"
  by (cases "upload_from_filename w gcs_input_bucket (unique_filename w i) (temp_audio_file i)")
     (auto simp add: stage_upload_def Let_def gcs_input_bucket_def gcs_output_bucket_def)

lemma submit_Inr:
  "submit w project_id a s = (Inr operation, s') \<Longrightarrow>
     batch_recognize w (build_request w project_id a) = Inr operation \<and> fs s' = fs s \<and>
     trace s' = trace s @
       [Progress 42, Progress 50, BatchRecognize (build_request w project_id a), Progress 55]"
  by (cases "batch_recognize w (build_request w project_id a)")
     (auto simp add: submit_def Let_def)

lemma submit_Inl:
  "submit w project_id a s = (Inl e, s') \<Longrightarrow>
     fs s' = fs s \<and> (\<exists>msg. e = SubmissionError msg) \<and>
     trace s' = trace s @
       [Progress 42, Progress 50, BatchRecognize (build_request w project_id a)]"
  by (cases "batch_recognize w (build_request w project_id a)")
     (auto simp add: submit_def Let_def)

lemma submitted_Inr:
  assumes "submitted w i = (Inr (a, operation), s)"
  shows "\<exists>s1 p project_id.
     normalized w i = (Inr (), s1) \<and>
     environ w ''GOOGLE_APPLICATION_CREDENTIALS'' = Some p \<and> p \<noteq> [] \<and> path_exists w s1 p \<and>
     from_service_account_file w p = Inr project_id \<and>
     a = audio_uri_of w i \<and>
     batch_recognize w (build_request w project_id a) = Inr operation \<and>
     fs s = fs s1 \<and>
     trace s = trace s1 @
       [LoadCredentials p,
        Upload gcs_input_bucket (unique_filename w i) (temp_audio_file i),
        Progress 40, Progress 42, Progress 50,
        BatchRecognize (build_request w project_id a), Progress 55]"
proof -
  from assms obtain s1 project_id s2 s3 where
    n: "normalized w i = (Inr (), s1)" and
    c: "load_credentials w s1 = (Inr project_id, s2)" and
    u: "stage_upload w i s2 = (Inr a, s3)" and
    b: "submit w project_id a s3 = (Inr operation, s)"
    by (auto simp: submitted_def and_then_Inr)
  from load_credentials_Inr [OF c] stage_upload_Inr [OF u] submit_Inr [OF b] n
  show ?thesis by auto
qed

lemma submitted_Inl:
  assumes "submitted w i = (Inl e, s)"
  shows "normalized w i = (Inl e, s) \<or>
     (\<exists>s1. normalized w i = (Inr (), s1) \<and> fs s = fs s1 \<and>
        ((e = MissingCredential \<and> trace s = trace s1) \<or>
         (\<exists>p msg. e = CredentialError msg \<and> trace s = trace s1 @ [LoadCredentials p]) \<or>
         (\<exists>p msg. e = StagingError msg \<and>
            trace s = trace s1 @
              [LoadCredentials p,
               Upload gcs_input_bucket (unique_filename w i) (temp_audio_file i)]) \<or>
         (\<exists>p project_id msg. e = SubmissionError msg \<and>
            trace s = trace s1 @
              [LoadCredentials p,
               Upload gcs_input_bucket (unique_filename w i) (temp_audio_file i),
               Progress 40, Progress 42, Progress 50,
               BatchRecognize (build_request w project_id (audio_uri_of w i))])))"
proof (cases "normalized w i = (Inl e, s)")
  case True
  then show ?thesis by simp
next
  case False
  with assms obtain s1 where n: "normalized w i = (Inr (), s1)" and
    r: "and_then (load_credentials w s1) (\<lambda>project_id s.
          and_then (stage_upload w i s) (\<lambda>audio_uri s.
          and_then (submit w project_id audio_uri s) (\<lambda>operation s.
            (Inr (audio_uri, operation), s)))) = (Inl e, s)"
    by (auto simp: submitted_def and_then_Inl [of "normalized w i"])
  from r consider
    (cred) "load_credentials w s1 = (Inl e, s)" |
    (upload) project_id s2 where "load_credentials w s1 = (Inr project_id, s2)"
      "stage_upload w i s2 = (Inl e, s)" |
    (submit) project_id s2 a s3 where "load_credentials w s1 = (Inr project_id, s2)"
      "stage_upload w i s2 = (Inr a, s3)" "submit w project_id a s3 = (Inl e, s)"
    by (auto simp: and_then_Inl)
  then show ?thesis
  proof cases
    case cred
    from load_credentials_Inl [OF this] n show ?thesis by auto
  next
    case upload
    from load_credentials_Inr [OF upload(1)] stage_upload_Inl [OF upload(2)] n
    show ?thesis by auto
  next
    case submit
    from load_credentials_Inr [OF submit(1)] stage_upload_Inr [OF submit(2)]
      submit_Inl [OF submit(3)] n
    show ?thesis by auto
  qed
qed

subsection \<open>Waiting and fetching\<close>

lemma operation_result_Inl:
  "operation_result timeout operation = Inl e \<Longrightarrow> e = JobTimeout \<or> (\<exists>detail. e = JobFailed detail)"
  apply (cases "terminal_after operation")
   apply (simp add: operation_result_def)
  apply (cases "job_outcome operation")
   apply (auto simp add: operation_result_def split: if_splits)
  done

lemma operation_result_timeout:
  "terminal_after operation = None \<or> (\<exists>t. terminal_after operation = Some t \<and> timeout < t) \<Longrightarrow>
     operation_result timeout operation = Inl JobTimeout"
  by (auto simp add: operation_result_def)

lemma await_Inr:
  assumes "await a operation s = (Inr file_results, s')"
  shows "(\<exists>results. operation_result 3600 operation = Inr results \<and>
       results a = Some file_results) \<and> truthy file_results \<and> fs s' = fs s \<and>
     trace s' = trace s @ [OperationResult 3600, Progress 75]"
proof (cases "operation_result 3600 operation")
  case (Inl e)
  with assms show ?thesis by (simp add: await_def Let_def)
next
  case (Inr results)
  with assms show ?thesis
    by (cases "results a") (auto simp add: await_def Let_def split: if_splits)
qed

lemma await_Inl:
  assumes "await a operation s = (Inl e, s')"
  shows "fs s' = fs s \<and>
     ((operation_result 3600 operation = Inl e \<and> trace s' = trace s @ [OperationResult 3600]) \<or>
      (e = NoResultsError \<and> trace s' = trace s @ [OperationResult 3600, Progress 75]))"
proof (cases "operation_result 3600 operation")
  case (Inl e')
  with assms show ?thesis by (auto simp add: await_def Let_def)
next
  case (Inr results)
  with assms show ?thesis
    by (cases "results a") (auto simp add: await_def Let_def split: if_splits)
qed

lemma fetch_Inr:
  assumes "fetch w file_results s = (Inr batch_results, s')"
  shows "\<exists>b ob results_bytes. match_gs_uri (uri file_results) = Some (b, ob) \<and>
     download_as_bytes w b ob = Inr results_bytes \<and>
     from_json w results_bytes = Inr batch_results \<and>
     fs s' = fs s \<and> trace s' = trace s @ [Download b ob]"
proof (cases "match_gs_uri (uri file_results)")
  case None
  with assms show ?thesis by (simp add: fetch_def)
next
  case (Some bo)
  obtain b ob where bo: "bo = (b, ob)" by (cases bo)
  show ?thesis
  proof (cases "download_as_bytes w b ob")
    case (Inl msg)
    with assms Some bo show ?thesis by (simp add: fetch_def Let_def)
  next
    case (Inr results_bytes)
    with assms Some bo show ?thesis
      by (cases "from_json w results_bytes") (auto simp add: fetch_def Let_def)
  qed
qed

lemma fetch_Inl:
  assumes "fetch w file_results s = (Inl e, s')"
  shows "fs s' = fs s \<and>
     ((e = MalformedOutputURI \<and> match_gs_uri (uri file_results) = None \<and> trace s' = trace s) \<or>
      (\<exists>b ob. match_gs_uri (uri file_results) = Some (b, ob) \<and>
         trace s' = trace s @ [Download b ob] \<and>
         ((\<exists>msg. e = DownloadError msg) \<or> (\<exists>msg. e = ParseError msg))))"
proof (cases "match_gs_uri (uri file_results)")
  case None
  with assms show ?thesis by (auto simp add: fetch_def)
next
  case (Some bo)
  obtain b ob where bo: "bo = (b, ob)" by (cases bo)
  show ?thesis
  proof (cases "download_as_bytes w b ob")
    case (Inl msg)
    with assms Some bo show ?thesis by (auto simp add: fetch_def Let_def)
  next
    case (Inr results_bytes)
    with assms Some bo show ?thesis
      by (cases "from_json w results_bytes") (auto simp add: fetch_def Let_def)
  qed
qed

lemma fetched_Inr:
  assumes "fetched w i = (Inr batch_results, s)"
  shows "\<exists>a operation s2 file_results b ob.
     submitted w i = (Inr (a, operation), s2) \<and>
     await a operation s2 = (Inr file_results, emit (Progress 75) (emit (OperationResult 3600) s2)) \<and>
     match_gs_uri (uri file_results) = Some (b, ob) \<and>
     fs s = fs s2 \<and>
     trace s = trace s2 @ [OperationResult 3600, Progress 75, Download b ob]"
proof -
  from assms obtain a operation s2 file_results s3 where
    sub: "submitted w i = (Inr (a, operation), s2)" and
    aw: "await a operation s2 = (Inr file_results, s3)" and
    fe: "fetch w file_results s3 = (Inr batch_results, s)"
    by (auto simp: fetched_def and_then_Inr)
  from await_Inr [OF aw] have "s3 = emit (Progress 75) (emit (OperationResult 3600) s2)"
    by (simp add: emit_def)
  with await_Inr [OF aw] fetch_Inr [OF fe] sub aw show ?thesis by auto
qed

lemma fetched_Inl:
  assumes "fetched w i = (Inl e, s)"
  shows "submitted w i = (Inl e, s) \<or>
     (\<exists>a operation s2. submitted w i = (Inr (a, operation), s2) \<and> fs s = fs s2 \<and>
        (((e = JobTimeout \<or> (\<exists>detail. e = JobFailed detail)) \<and>
            trace s = trace s2 @ [OperationResult 3600]) \<or>
         ((e = NoResultsError \<or> e = MalformedOutputURI) \<and>
            trace s = trace s2 @ [OperationResult 3600, Progress 75]) \<or>
         (((\<exists>msg. e = DownloadError msg) \<or> (\<exists>msg. e = ParseError msg)) \<and>
            (\<exists>b ob. trace s = trace s2 @ [OperationResult 3600, Progress 75, Download b ob]))))"
proof (cases "submitted w i = (Inl e, s)")
  case True
  then show ?thesis by simp
next
  case False
  with assms obtain a operation s2 where sub: "submitted w i = (Inr (a, operation), s2)" and
    r: "and_then (await a operation s2) (fetch w) = (Inl e, s)"
    by (auto simp: fetched_def and_then_Inl [of "submitted w i"])
  from r consider
    (wait) "await a operation s2 = (Inl e, s)" |
    (fetch) file_results s3 where "await a operation s2 = (Inr file_results, s3)"
      "fetch w file_results s3 = (Inl e, s)"
    by (auto simp: and_then_Inl)
  then show ?thesis
  proof cases
    case wait
    from await_Inl [OF this] sub show ?thesis
      by (auto dest: operation_result_Inl)
  next
    case fetch
    from await_Inr [OF fetch(1)] fetch_Inl [OF fetch(2)] sub show ?thesis by auto
  qed
qed

subsection \<open>Assembling, writing and cleaning up\<close>

lemma assemble_all:
  "\<forall>result\<in>set batch_results. alternatives result \<noteq> [] \<Longrightarrow>
     assemble text0 batch_results = Inr (text0 @ top_alternatives_joined batch_results)"
proof (induction batch_results arbitrary: text0)
  case Nil
  then show ?case by (simp add: top_alternatives_joined_def)
next
  case (Cons result rest)
  then obtain a as where "alternatives result = a # as"
    by (cases "alternatives result") auto
  with Cons show ?case by (simp add: top_alternatives_joined_def)
qed

lemma assemble_none:
  "\<exists>result\<in>set batch_results. alternatives result = [] \<Longrightarrow>
     assemble text0 batch_results = Inl IndexError"
proof (induction batch_results arbitrary: text0)
  case Nil
  then show ?case by simp
next
  case (Cons result rest)
  then show ?case by (cases "alternatives result") auto
qed

lemma assemble_Inl: "assemble text0 batch_results = Inl e \<Longrightarrow> e = IndexError"
proof (induction batch_results arbitrary: text0)
  case Nil
  then show ?case by simp
next
  case (Cons result rest)
  then show ?case by (cases "alternatives result") auto
qed

lemma output_not_temp: "output_file i \<noteq> temp_audio_file i"
  by (simp add: output_file_def temp_audio_file_def)

lemma write_transcript_Inr:
  assumes "write_transcript w i batch_results s = (Inr u, s')"
  shows "\<exists>text. assemble [] batch_results = Inr text \<and>
     write_text w (output_file i) = None \<and>
     trace s' = trace s @ [Progress 90, WriteText (output_file i) ''utf-8'' text, Progress 100] \<and>
     fs s' = (fs s)(output_file i \<mapsto> TextFile ''utf-8'' text)"
proof (cases "assemble [] batch_results")
  case (Inl e)
  with assms show ?thesis by (simp add: write_transcript_def)
next
  case (Inr joined)
  with assms show ?thesis
    by (cases "write_text w (output_file i)") (auto simp add: write_transcript_def Let_def)
qed

lemma write_transcript_Inl:
  assumes "write_transcript w i batch_results s = (Inl e, s')"
  shows "fs s' = fs s \<and>
     ((e = IndexError \<and> assemble [] batch_results = Inl IndexError \<and> trace s' = trace s) \<or>
      (\<exists>text msg. assemble [] batch_results = Inr text \<and> e = FileWriteError msg \<and>
         write_text w (output_file i) = Some msg \<and>
         trace s' = trace s @ [Progress 90, WriteText (output_file i) ''utf-8'' text]))"
proof (cases "assemble [] batch_results")
  case (Inl e')
  with assms assemble_Inl [OF Inl] show ?thesis by (auto simp add: write_transcript_def)
next
  case (Inr joined)
  with assms show ?thesis
    by (cases "write_text w (output_file i)") (auto simp add: write_transcript_def Let_def)
qed

lemma cleanup_Inr:
  assumes "cleanup w i s = (Inr message, s')"
  shows "message = ''Transcription saved to '' @ output_file i \<and>
     fs s' = (fs s)(temp_audio_file i := None) \<and>
     trace s' = trace s @
       (if path_exists w s (temp_audio_file i) then [Remove (temp_audio_file i)] else []) @
       [Finished message]"
proof (cases "path_exists w s (temp_audio_file i)")
  case False
  then have "fs s (temp_audio_file i) = None" by (simp add: path_exists_def)
  then have "(fs s)(temp_audio_file i := None) = fs s" by (simp add: fun_upd_idem)
  with False assms show ?thesis by (auto simp add: cleanup_def Let_def)
next
  case True
  with assms show ?thesis
    by (cases "os_remove w (temp_audio_file i)") (auto simp add: cleanup_def Let_def)
qed

lemma cleanup_Inl:
  assumes "cleanup w i s = (Inl e, s')"
  shows "fs s' = fs s \<and> path_exists w s (temp_audio_file i) \<and>
     (\<exists>msg. e = CleanupError msg) \<and>
     trace s' = trace s @ [Remove (temp_audio_file i)]"
proof (cases "path_exists w s (temp_audio_file i)")
  case False
  with assms show ?thesis by (auto simp add: cleanup_def Let_def)
next
  case True
  with assms show ?thesis
    by (cases "os_remove w (temp_audio_file i)") (auto simp add: cleanup_def Let_def)
qed

subsection \<open>The whole method\<close>

lemma run_Inr: "run w i = (Inr message, s) \<longleftrightarrow> body w i = (Inr message, s)"
  by (cases "body w i" rule: prod.exhaust; cases "fst (body w i)") (auto simp add: run_def)

lemma run_Inl:
  "run w i = (Inl e, s) \<longleftrightarrow> (\<exists>s0. body w i = (Inl e, s0) \<and> s = emit (Error e) s0)"
  by (cases "body w i" rule: prod.exhaust; cases "fst (body w i)") (auto simp add: run_def)

lemma fetched_ok:
  assumes "fetched w i = (Inr batch_results, s)"
  shows "\<exists>p project_id operation b ob ch.
     import_error w = None \<and> supported w i \<and>
     convert w (clip_kind_of w i) i = Converted ch \<and>
     environ w ''GOOGLE_APPLICATION_CREDENTIALS'' = Some p \<and>
     from_service_account_file w p = Inr project_id \<and>
     batch_recognize w (build_request w project_id (audio_uri_of w i)) = Inr operation \<and>
     fs s = (files w)(temp_audio_file i \<mapsto> WaveFile 16000 ''pcm_s16le'' ch) \<and>
     trace s =
       [Progress 5,
        WriteAudiofile (clip_kind_of w i) i (temp_audio_file i) 16000 ''pcm_s16le'' ffmpeg_params,
        Progress 33,
        LoadCredentials p,
        Upload gcs_input_bucket (unique_filename w i) (temp_audio_file i),
        Progress 40, Progress 42, Progress 50,
        BatchRecognize (build_request w project_id (audio_uri_of w i)),
        Progress 55, OperationResult 3600, Progress 75, Download b ob]"
proof -
  from fetched_Inr [OF assms] obtain a operation s2 file_results b ob where
    sub: "submitted w i = (Inr (a, operation), s2)" and
    aw: "await a operation s2 =
      (Inr file_results, emit (Progress 75) (emit (OperationResult 3600) s2))" and
    m: "match_gs_uri (uri file_results) = Some (b, ob)" and
    f: "fs s = fs s2" and
    t: "trace s = trace s2 @ [OperationResult 3600, Progress 75, Download b ob]"
    by (elim exE conjE) (rule that, assumption+)
  from submitted_Inr [OF sub] obtain s1 p project_id where
    n: "normalized w i = (Inr (), s1)" and
    e: "environ w ''GOOGLE_APPLICATION_CREDENTIALS'' = Some p" and
    c: "from_service_account_file w p = Inr project_id" and
    a: "a = audio_uri_of w i" and
    r: "batch_recognize w (build_request w project_id a) = Inr operation" and
    f2: "fs s2 = fs s1" and
    t2: "trace s2 = trace s1 @
       [LoadCredentials p,
        Upload gcs_input_bucket (unique_filename w i) (temp_audio_file i),
        Progress 40, Progress 42, Progress 50,
        BatchRecognize (build_request w project_id a), Progress 55]"
    by (elim exE conjE) (rule that, assumption+)
  from normalized_Inr [OF n] obtain ch where
    "import_error w = None" "supported w i" "convert w (clip_kind_of w i) i = Converted ch"
    "fs s1 = (files w)(temp_audio_file i \<mapsto> WaveFile 16000 ''pcm_s16le'' ch)"
    "trace s1 = [Progress 5,
       WriteAudiofile (clip_kind_of w i) i (temp_audio_file i) 16000 ''pcm_s16le'' ffmpeg_params,
       Progress 33]"
    by (elim exE conjE) (rule that, assumption+)
  with m f t e c a r f2 t2 show ?thesis by simp
qed

lemma body_Inr:
  assumes "body w i = (Inr message, s)"
  shows "\<exists>batch_results s3 text.
     fetched w i = (Inr batch_results, s3) \<and>
     assemble [] batch_results = Inr text \<and>
     write_text w (output_file i) = None \<and>
     message = ''Transcription saved to '' @ output_file i \<and>
     fs s = (fs s3)(output_file i \<mapsto> TextFile ''utf-8'' text, temp_audio_file i := None) \<and>
     trace s = trace s3 @
       [Progress 90, WriteText (output_file i) ''utf-8'' text, Progress 100,
        Remove (temp_audio_file i), Finished message]"
proof -
  from assms obtain batch_results s3 s4 where
    f: "fetched w i = (Inr batch_results, s3)" and
    wt: "write_transcript w i batch_results s3 = (Inr (), s4)" and
    c: "cleanup w i s4 = (Inr message, s)"
    by (auto simp: body_def and_then_Inr)
  from fetched_ok [OF f] obtain ch where
    "fs s3 = (files w)(temp_audio_file i \<mapsto> WaveFile 16000 ''pcm_s16le'' ch)" by auto
  then have ex: "fs s3 (temp_audio_file i) \<noteq> None" by simp
  from write_transcript_Inr [OF wt] obtain joined where
    j: "assemble [] batch_results = Inr joined" "write_text w (output_file i) = None"
       "trace s4 = trace s3 @
          [Progress 90, WriteText (output_file i) ''utf-8'' joined, Progress 100]"
       "fs s4 = (fs s3)(output_file i \<mapsto> TextFile ''utf-8'' joined)"
    by auto
  with ex have "path_exists w s4 (temp_audio_file i)"
    by (simp add: output_not_temp [symmetric] path_exists_def)
  with cleanup_Inr [OF c] j f show ?thesis by simp
qed

lemma body_Inl:
  assumes "body w i = (Inl e, s)"
  shows "fetched w i = (Inl e, s) \<or>
     (\<exists>batch_results s3. fetched w i = (Inr batch_results, s3) \<and>
        ((e = IndexError \<and> assemble [] batch_results = Inl IndexError \<and>
            fs s = fs s3 \<and> trace s = trace s3) \<or>
         (\<exists>text msg. e = FileWriteError msg \<and> assemble [] batch_results = Inr text \<and>
            write_text w (output_file i) = Some msg \<and> fs s = fs s3 \<and>
            trace s = trace s3 @ [Progress 90, WriteText (output_file i) ''utf-8'' text]) \<or>
         (\<exists>text msg. e = CleanupError msg \<and> assemble [] batch_results = Inr text \<and>
            fs s = (fs s3)(output_file i \<mapsto> TextFile ''utf-8'' text) \<and>
            trace s = trace s3 @
              [Progress 90, WriteText (output_file i) ''utf-8'' text, Progress 100,
               Remove (temp_audio_file i)])))"
proof (cases "fetched w i = (Inl e, s)")
  case True
  then show ?thesis by simp
next
  case False
  with assms obtain batch_results s3 where f: "fetched w i = (Inr batch_results, s3)" and
    r: "and_then (write_transcript w i batch_results s3) (\<lambda>_. cleanup w i) = (Inl e, s)"
    by (auto simp: body_def and_then_Inl [of "fetched w i"])
  from r consider
    (wfail) "write_transcript w i batch_results s3 = (Inl e, s)" |
    (cfail) s4 where "write_transcript w i batch_results s3 = (Inr (), s4)"
      "cleanup w i s4 = (Inl e, s)"
    by (auto simp: and_then_Inl)
  then show ?thesis
  proof cases
    case wfail
    from write_transcript_Inl [OF this] f show ?thesis by auto
  next
    case cfail
    from write_transcript_Inr [OF cfail(1)] cleanup_Inl [OF cfail(2)] f show ?thesis by auto
  qed
qed

subsection \<open>The signals\<close>

lemma signals_append [simp]: "signals (xs @ ys) = signals xs @ signals ys"
  by (simp add: signals_def)

lemma signals_Nil [simp]: "signals [] = []"
  by (simp add: signals_def)

lemma signals_Cons [simp]:
  "signals (e # es) = (if is_signal e then e # signals es else signals es)"
  by (simp add: signals_def)

lemma normalized_ok_signals:
  "normalized w i = (Inr u, s) \<Longrightarrow> signals (trace s) = map Progress [5, 33]"
  by (drule normalized_Inr) auto

lemma submitted_ok_signals:
  assumes "submitted w i = (Inr v, s)"
  shows "signals (trace s) = map Progress [5, 33, 40, 42, 50, 55]"
proof -
  obtain a operation where v: "v = (a, operation)" by (cases v)
  from submitted_Inr [OF assms [unfolded v]] obtain s1 where
    "normalized w i = (Inr (), s1)" and
    "signals (trace s) = signals (trace s1) @ map Progress [40, 42, 50, 55]"
    by auto
  with normalized_ok_signals [of w i "()" s1] show ?thesis by simp
qed

lemma fetched_ok_signals:
  "fetched w i = (Inr batch_results, s) \<Longrightarrow>
     signals (trace s) = map Progress [5, 33, 40, 42, 50, 55, 75]"
  by (drule fetched_ok) auto

lemma normalized_fail_signals:
  "normalized w i = (Inl e, s) \<Longrightarrow>
     signals (trace s) \<in> set (map (map Progress) (prefixes ticks))"
  by (drule normalized_Inl) (auto simp add: ticks_def)

lemma submitted_fail_signals:
  assumes "submitted w i = (Inl e, s)"
  shows "signals (trace s) \<in> set (map (map Progress) (prefixes ticks))"
proof -
  from submitted_Inl [OF assms] consider
    (before) "normalized w i = (Inl e, s)" |
    (here) s1 where "normalized w i = (Inr (), s1)"
      "signals (trace s) = signals (trace s1) \<or>
       signals (trace s) = signals (trace s1) @ map Progress [40, 42, 50]"
    by auto
  then show ?thesis
  proof cases
    case before
    then show ?thesis by (rule normalized_fail_signals)
  next
    case here
    with normalized_ok_signals [OF here(1)] show ?thesis by (auto simp add: ticks_def)
  qed
qed

lemma fetched_fail_signals:
  assumes "fetched w i = (Inl e, s)"
  shows "signals (trace s) \<in> set (map (map Progress) (prefixes ticks))"
proof -
  from fetched_Inl [OF assms] consider
    (before) "submitted w i = (Inl e, s)" |
    (here) v s2 where "submitted w i = (Inr v, s2)"
      "signals (trace s) = signals (trace s2) \<or>
       signals (trace s) = signals (trace s2) @ map Progress [75]"
    by auto
  then show ?thesis
  proof cases
    case before
    then show ?thesis by (rule submitted_fail_signals)
  next
    case here
    with submitted_ok_signals [OF here(1)] show ?thesis by (auto simp add: ticks_def)
  qed
qed

lemma body_fail_signals:
  assumes "body w i = (Inl e, s)"
  shows "signals (trace s) \<in> set (map (map Progress) (prefixes ticks))"
proof -
  from body_Inl [OF assms] consider
    (before) "fetched w i = (Inl e, s)" |
    (here) batch_results s3 where "fetched w i = (Inr batch_results, s3)"
      "signals (trace s) = signals (trace s3) \<or>
       signals (trace s) = signals (trace s3) @ map Progress [90] \<or>
       signals (trace s) = signals (trace s3) @ map Progress [90, 100]"
    by auto
  then show ?thesis
  proof cases
    case before
    then show ?thesis by (rule fetched_fail_signals)
  next
    case here
    with fetched_ok_signals [OF here(1)] show ?thesis by (auto simp add: ticks_def)
  qed
qed

text \<open>
  Claim C3. A run that succeeds emits the progress values 5, 33, 40, 42, 50, 55, 75, 90,
  100 in this order, and then the \<open>finished\<close> signal; the values increase strictly. A run
  that fails emits a prefix of this sequence, then the \<open>error\<close> signal, and no signal after
  it.
\<close>

theorem progress_sequence:
  "(\<forall>message s. run w i = (Inr message, s) \<longrightarrow>
      signals (trace s) = map Progress ticks @ [Finished message]) \<and>
   (\<forall>e s. run w i = (Inl e, s) \<longrightarrow>
      (\<exists>ps. prefix ps ticks \<and> signals (trace s) = map Progress ps @ [Error e])) \<and>
   sorted_wrt (<) ticks"
proof (intro conjI allI impI)
  fix message s
  assume "run w i = (Inr message, s)"
  then have b: "body w i = (Inr message, s)" by (simp add: run_Inr)
  from body_Inr [OF b] obtain batch_results s3 where
    f: "fetched w i = (Inr batch_results, s3)" and
    "signals (trace s) = signals (trace s3) @ [Progress 90, Progress 100, Finished message]"
    by auto
  with fetched_ok_signals [OF f]
  show "signals (trace s) = map Progress ticks @ [Finished message]"
    by (simp add: ticks_def)
next
  fix e s
  assume "run w i = (Inl e, s)"
  then obtain s0 where b: "body w i = (Inl e, s0)" and s: "s = emit (Error e) s0"
    by (auto simp add: run_Inl)
  from body_fail_signals [OF b] obtain ps where
    "prefix ps ticks" "signals (trace s0) = map Progress ps"
    by auto
  with s show "\<exists>ps. prefix ps ticks \<and> signals (trace s) = map Progress ps @ [Error e]"
    by auto
next
  show "sorted_wrt (<) ticks" by (simp add: ticks_def)
qed

subsection \<open>The sample run\<close>

lemma splitext_sample [simp]: "splitext ''sample.mp3'' = (''sample'', ''.mp3'')"
  by (simp add: splitext_def splitext_loop.simps)

lemma sample_paths [simp]:
  "temp_audio_file ''sample.mp3'' = ''sample_temp.wav''"
  "output_file ''sample.mp3'' = ''sample.txt''"
  "supported sample_world ''sample.mp3''"
  "clip_kind_of sample_world ''sample.mp3'' = AudioFileClip"
  by (simp_all add: temp_audio_file_def output_file_def supported_def clip_kind_of_def
        sample_world_def lower_def lower_char_def video_extensions_def audio_extensions_def)

lemma sample_world_sel [simp]:
  "import_error sample_world = None"
  "environ sample_world =
     [''GOOGLE_APPLICATION_CREDENTIALS'' \<mapsto> ''key.json'', ''GCS_INPUT_BUCKET'' \<mapsto> ''in'',
      ''GCS_OUTPUT_BUCKET'' \<mapsto> ''out'']"
  "files sample_world = [''sample.mp3'' \<mapsto> OtherFile, ''key.json'' \<mapsto> OtherFile]"
  "convert sample_world = (\<lambda>_ _. Converted 2)"
  "from_service_account_file sample_world = (\<lambda>_. Inr ''proj'')"
  "uuid4_hex sample_world = (\<lambda>n. if n = 0 then ''0a'' else ''0b'')"
  "upload_from_filename sample_world = (\<lambda>_ _ _. None)"
  "batch_recognize sample_world =
     (\<lambda>_. Inr \<lparr>terminal_after = Some 12, job_outcome = Inr sample_results\<rparr>)"
  "download_as_bytes sample_world = (\<lambda>_ _. Inr ''{}'')"
  "from_json sample_world = (\<lambda>_. Inr [Result [Alternative ''test transcript'']])"
  "write_text sample_world = (\<lambda>_. None)"
  "os_remove sample_world = (\<lambda>_. None)"
  "str_lower sample_world = lower"
  "aliases sample_world = (\<lambda>_. [])"
  by (simp_all add: sample_world_def)

lemma sample_names [simp]:
  "unique_filename sample_world ''sample.mp3'' = ''sample_temp.wav-0a.wav''"
  "audio_uri_of sample_world ''sample.mp3'' = ''gs://speech_to_text_python/sample_temp.wav-0a.wav''"
  by (simp_all add: unique_filename_def audio_uri_of_def basename_def gcs_input_bucket_def)

lemma sample_normalized:
  "normalized sample_world ''sample.mp3'' =
     (Inr (),
      \<lparr>trace = [Progress 5,
         WriteAudiofile AudioFileClip ''sample.mp3'' ''sample_temp.wav'' 16000 ''pcm_s16le''
           ffmpeg_params, Progress 33],
       fs = [''sample.mp3'' \<mapsto> OtherFile, ''key.json'' \<mapsto> OtherFile,
             ''sample_temp.wav'' \<mapsto> WaveFile 16000 ''pcm_s16le'' 2]\<rparr>)"
  by (simp add: normalized_def and_then_def import_modules_def normalize_alt write_audiofile_def
        initial_def emit_def put_file_def Let_def)

lemma sample_submitted:
  "submitted sample_world ''sample.mp3'' =
     (Inr (''gs://speech_to_text_python/sample_temp.wav-0a.wav'',
           \<lparr>terminal_after = Some 12, job_outcome = Inr sample_results\<rparr>),
      \<lparr>trace = [Progress 5,
         WriteAudiofile AudioFileClip ''sample.mp3'' ''sample_temp.wav'' 16000 ''pcm_s16le''
           ffmpeg_params, Progress 33,
         LoadCredentials ''key.json'',
         Upload ''speech_to_text_python'' ''sample_temp.wav-0a.wav'' ''sample_temp.wav'',
         Progress 40, Progress 42, Progress 50,
         BatchRecognize (build_request sample_world ''proj''
           ''gs://speech_to_text_python/sample_temp.wav-0a.wav''),
         Progress 55],
       fs = [''sample.mp3'' \<mapsto> OtherFile, ''key.json'' \<mapsto> OtherFile,
             ''sample_temp.wav'' \<mapsto> WaveFile 16000 ''pcm_s16le'' 2]\<rparr>)"
  by (simp add: submitted_def sample_normalized and_then_def load_credentials_def
        stage_upload_def submit_def gcs_input_bucket_def gcs_output_bucket_def
        emit_def path_exists_def Let_def)

lemma sample_fetched:
  "fetched sample_world ''sample.mp3'' =
     (Inr [Result [Alternative ''test transcript'']],
      \<lparr>trace = [Progress 5,
         WriteAudiofile AudioFileClip ''sample.mp3'' ''sample_temp.wav'' 16000 ''pcm_s16le''
           ffmpeg_params, Progress 33,
         LoadCredentials ''key.json'',
         Upload ''speech_to_text_python'' ''sample_temp.wav-0a.wav'' ''sample_temp.wav'',
         Progress 40, Progress 42, Progress 50,
         BatchRecognize (build_request sample_world ''proj''
           ''gs://speech_to_text_python/sample_temp.wav-0a.wav''),
         Progress 55, OperationResult 3600, Progress 75,
         Download ''speech_to_text_python'' ''transcript-0b.json''],
       fs = [''sample.mp3'' \<mapsto> OtherFile, ''key.json'' \<mapsto> OtherFile,
             ''sample_temp.wav'' \<mapsto> WaveFile 16000 ''pcm_s16le'' 2]\<rparr>)"
  by (simp add: fetched_def sample_submitted and_then_def await_def operation_result_def
        truthy_def sample_results_def fetch_def match_gs_uri_def newline_def
        emit_def Let_def)

lemma sample_run:
  "run sample_world ''sample.mp3'' =
     (Inr ''Transcription saved to sample.txt'',
      \<lparr>trace = [Progress 5,
         WriteAudiofile AudioFileClip ''sample.mp3'' ''sample_temp.wav'' 16000 ''pcm_s16le''
           ffmpeg_params, Progress 33,
         LoadCredentials ''key.json'',
         Upload ''speech_to_text_python'' ''sample_temp.wav-0a.wav'' ''sample_temp.wav'',
         Progress 40, Progress 42, Progress 50,
         BatchRecognize (build_request sample_world ''proj''
           ''gs://speech_to_text_python/sample_temp.wav-0a.wav''),
         Progress 55, OperationResult 3600, Progress 75,
         Download ''speech_to_text_python'' ''transcript-0b.json'',
         Progress 90, WriteText ''sample.txt'' ''utf-8'' (''test transcript'' @ [newline]),
         Progress 100, Remove ''sample_temp.wav'',
         Finished ''Transcription saved to sample.txt''],
       fs = ([''sample.mp3'' \<mapsto> OtherFile, ''key.json'' \<mapsto> OtherFile,
             ''sample_temp.wav'' \<mapsto> WaveFile 16000 ''pcm_s16le'' 2,
             ''sample.txt'' \<mapsto> TextFile ''utf-8'' (''test transcript'' @ [newline])])
             (''sample_temp.wav'' := None)\<rparr>)"
  by (simp add: run_def body_def sample_fetched and_then_def write_transcript_def cleanup_def
        emit_def put_file_def delete_file_def path_exists_def Let_def)

lemmas eval_defs = normalized_def submitted_def fetched_def and_then_def import_modules_def
  normalize_alt write_audiofile_def load_credentials_def stage_upload_def submit_def
  await_def operation_result_def truthy_def sample_results_def fetch_def match_gs_uri_def
  newline_def gcs_input_bucket_def gcs_output_bucket_def unique_filename_def audio_uri_of_def
  basename_def initial_def emit_def put_file_def path_exists_def supported_def
  clip_kind_of_def lower_def lower_char_def video_extensions_def audio_extensions_def Let_def

lemma is_write_text_filter_fetched:
  "fetched w i = (Inr batch_results, s) \<Longrightarrow> filter is_write_text (trace s) = []"
  by (drule fetched_ok) auto

lemma fetched_output_untouched:
  "fetched w i = (Inr batch_results, s) \<Longrightarrow> fs s (output_file i) = files w (output_file i)"
  by (drule fetched_ok) (auto simp add: output_not_temp)

subsection \<open>The transcript\<close>

text \<open>
  Claim C2. When the method has obtained a results document in which every segment has at
  least one alternative, the one text it writes goes to the output path, with the encoding
  \<open>utf-8\<close>, and is the concatenation, in the order of the document, of the transcript of
  the first alternative of each segment followed by a line break, and nothing else; when
  the write does not raise, this is the content of the file afterwards. For the segments
  "hello" and "world" the text is "hello", line break, "world", line break.
\<close>

theorem transcript_written:
  assumes "fetched w i = (Inr batch_results, s)"
    and "\<forall>result\<in>set batch_results. alternatives result \<noteq> []"
  shows "filter is_write_text (trace (snd (run w i))) =
           [WriteText (output_file i) ''utf-8'' (top_alternatives_joined batch_results)] \<and>
         (write_text w (output_file i) = None \<longrightarrow>
            fs (snd (run w i)) (output_file i) =
              Some (TextFile ''utf-8'' (top_alternatives_joined batch_results)))"
proof -
  from assms(2) have a: "assemble [] batch_results = Inr (top_alternatives_joined batch_results)"
    using assemble_all [of batch_results "[]"] by simp
  note nw = is_write_text_filter_fetched [OF assms(1)]
  obtain r s' where b: "body w i = (r, s')" by (cases "body w i")
  show ?thesis
  proof (cases r)
    case (Inr message)
    with b have "run w i = (Inr message, s')" by (simp add: run_Inr)
    moreover from body_Inr [OF b [unfolded Inr]] assms(1) a nw
    have "filter is_write_text (trace s') =
        [WriteText (output_file i) ''utf-8'' (top_alternatives_joined batch_results)]"
      "fs s' (output_file i) = Some (TextFile ''utf-8'' (top_alternatives_joined batch_results))"
      by (auto simp add: output_not_temp)
    ultimately show ?thesis by simp
  next
    case (Inl e)
    with b have r: "run w i = (Inl e, emit (Error e) s')" by (simp add: run_Inl)
    from body_Inl [OF b [unfolded Inl]] assms(1) a nw
    have "filter is_write_text (trace s') =
        [WriteText (output_file i) ''utf-8'' (top_alternatives_joined batch_results)]"
      "write_text w (output_file i) = None \<longrightarrow>
         fs s' (output_file i) = Some (TextFile ''utf-8'' (top_alternatives_joined batch_results))"
      by auto
    with r show ?thesis by simp
  qed
qed

lemma hello_fetched:
  "fetched hello_world ''sample.mp3'' =
     (Inr [Result [Alternative ''hello''], Result [Alternative ''world'']],
      snd (fetched sample_world ''sample.mp3''))"
  by (simp add: hello_world_def eval_defs build_request_def)

theorem transcript_written_witness:
  "fetched hello_world ''sample.mp3'' =
     (Inr [Result [Alternative ''hello''], Result [Alternative ''world'']],
      snd (fetched sample_world ''sample.mp3'')) \<and>
   alternatives (Result [Alternative ''hello'']) \<noteq> [] \<and>
   alternatives (Result [Alternative ''world'']) \<noteq> [] \<and>
   write_text hello_world ''sample.txt'' = None \<and>
   filter is_write_text (trace (snd (run hello_world ''sample.mp3''))) =
     [WriteText ''sample.txt'' ''utf-8'' (''hello'' @ [newline] @ ''world'' @ [newline])] \<and>
   fs (snd (run hello_world ''sample.mp3'')) ''sample.txt'' =
     Some (TextFile ''utf-8'' (''hello'' @ [newline] @ ''world'' @ [newline]))"
proof -
  have h: "\<forall>result\<in>set [Result [Alternative ''hello''], Result [Alternative ''world'']].
      alternatives result \<noteq> []"
    by simp
  have n: "write_text hello_world ''sample.txt'' = None"
    by (simp add: hello_world_def)
  from transcript_written [OF hello_fetched h] n hello_fetched h
  show ?thesis by (simp add: top_alternatives_joined_def)
qed

text \<open>
  Claim C9. When the results document the method has obtained has a segment without any
  alternative, the run ends with the \<open>error\<close> signal (the \<open>IndexError\<close> of
  \<open>alternatives[0]\<close>) right after the document was fetched: no segment is skipped, no
  text is written, and the output path holds what it held before the run.
\<close>

theorem segment_without_alternative_fails:
  assumes "fetched w i = (Inr batch_results, s)"
    and "\<exists>result\<in>set batch_results. alternatives result = []"
  shows "run w i = (Inl IndexError, emit (Error IndexError) s) \<and>
         filter is_write_text (trace (snd (run w i))) = [] \<and>
         fs (snd (run w i)) (output_file i) = files w (output_file i)"
proof -
  from assms(2) have "assemble [] batch_results = Inl IndexError"
    by (rule assemble_none)
  then have "write_transcript w i batch_results s = (Inl IndexError, s)"
    by (simp add: write_transcript_def)
  with assms(1) have "body w i = (Inl IndexError, s)"
    by (simp add: body_def and_then_def)
  then have "run w i = (Inl IndexError, emit (Error IndexError) s)"
    by (simp add: run_def)
  with is_write_text_filter_fetched [OF assms(1)] fetched_output_untouched [OF assms(1)]
  show ?thesis by simp
qed

lemma gap_fetched:
  "fetched gap_world ''sample.mp3'' =
     (Inr [Result [Alternative ''hello''], Result []],
      snd (fetched sample_world ''sample.mp3''))"
  by (simp add: gap_world_def eval_defs build_request_def)

theorem segment_without_alternative_fails_witness:
  "fetched gap_world ''sample.mp3'' =
     (Inr [Result [Alternative ''hello''], Result []],
      snd (fetched sample_world ''sample.mp3'')) \<and>
   (\<exists>result\<in>set [Result [Alternative ''hello''], Result []]. alternatives result = []) \<and>
   fst (run gap_world ''sample.mp3'') = Inl IndexError \<and>
   filter is_write_text (trace (snd (run gap_world ''sample.mp3''))) = [] \<and>
   fs (snd (run gap_world ''sample.mp3'')) ''sample.txt'' = None"
proof -
  have h: "\<exists>result\<in>set [Result [Alternative ''hello''], Result []]. alternatives result = []"
    by simp
  have f: "files gap_world ''sample.txt'' = None"
    by (simp add: gap_world_def)
  from segment_without_alternative_fails [OF gap_fetched h] gap_fetched h f
  show ?thesis by (elim conjE) simp
qed

lemma splitext_xyz [simp]: "splitext ''sample.xyz'' = (''sample'', ''.xyz'')"
  by (simp add: splitext_def splitext_loop.simps)

lemma not_supported_xyz [simp]: "\<not> supported sample_world ''sample.xyz''"
  by (simp add: supported_def lower_def lower_char_def video_extensions_def
        audio_extensions_def)

lemma sample_xyz_run:
  "run sample_world ''sample.xyz'' =
     (Inl UnsupportedFormat,
      \<lparr>trace = [Progress 5, Error UnsupportedFormat], fs = files sample_world\<rparr>)"
  by (simp add: run_def body_def eval_defs del: sample_world_sel(3))

theorem progress_sequence_witness:
  "run sample_world ''sample.mp3'' =
     (Inr ''Transcription saved to sample.txt'', snd (run sample_world ''sample.mp3'')) \<and>
   signals (trace (snd (run sample_world ''sample.mp3''))) =
     map Progress ticks @ [Finished ''Transcription saved to sample.txt''] \<and>
   run sample_world ''sample.xyz'' =
     (Inl UnsupportedFormat, snd (run sample_world ''sample.xyz'')) \<and>
   (\<exists>ps. prefix ps ticks \<and>
      signals (trace (snd (run sample_world ''sample.xyz''))) =
        map Progress ps @ [Error UnsupportedFormat])"
proof -
  have a: "run sample_world ''sample.mp3'' =
     (Inr ''Transcription saved to sample.txt'', snd (run sample_world ''sample.mp3''))"
    by (simp add: sample_run)
  have b: "run sample_world ''sample.xyz'' =
     (Inl UnsupportedFormat, snd (run sample_world ''sample.xyz''))"
    by (simp add: sample_xyz_run)
  from progress_sequence [of sample_world "''sample.mp3''"]
    progress_sequence [of sample_world "''sample.xyz''"] a b
  show ?thesis by blast
qed

subsection \<open>The wait\<close>

text \<open>
  Claim C7. The wait is called with a timeout of 3600 seconds, one hour. When the job that
  was submitted is not in a terminal state within it, the run fails with \<open>JobTimeout\<close>:
  after the call of the wait the trace has the \<open>error\<close> signal and nothing else, so that
  neither the outcome of the job nor its output is looked at, and no file is touched.
\<close>

theorem job_timeout:
  assumes "submitted w i = (Inr (a, operation), s)"
    and "terminal_after operation = None \<or>
         (\<exists>t. terminal_after operation = Some t \<and> 60 * 60 < t)"
  shows "fst (run w i) = Inl JobTimeout \<and>
         trace (snd (run w i)) = trace s @ [OperationResult (60 * 60), Error JobTimeout] \<and>
         fs (snd (run w i)) = fs s"
proof -
  from assms(2) have "operation_result 3600 operation = Inl JobTimeout"
    by (intro operation_result_timeout) simp
  then have "await a operation s = (Inl JobTimeout, emit (OperationResult 3600) s)"
    by (simp add: await_def)
  with assms(1) have "fetched w i = (Inl JobTimeout, emit (OperationResult 3600) s)"
    by (simp add: fetched_def and_then_def)
  then have "body w i = (Inl JobTimeout, emit (OperationResult 3600) s)"
    by (simp add: body_def and_then_def)
  then have "run w i =
      (Inl JobTimeout, emit (Error JobTimeout) (emit (OperationResult 3600) s))"
    by (simp add: run_def)
  then show ?thesis by simp
qed

lemma late_submitted:
  "submitted late_world ''sample.mp3'' =
     (Inr (''gs://speech_to_text_python/sample_temp.wav-0a.wav'',
           \<lparr>terminal_after = Some 7200, job_outcome = Inr sample_results\<rparr>),
      snd (submitted late_world ''sample.mp3''))"
  by (simp add: late_world_def eval_defs build_request_def)

theorem job_timeout_witness:
  "submitted late_world ''sample.mp3'' =
     (Inr (''gs://speech_to_text_python/sample_temp.wav-0a.wav'',
           \<lparr>terminal_after = Some 7200, job_outcome = Inr sample_results\<rparr>),
      snd (submitted late_world ''sample.mp3'')) \<and>
   (60 * 60 :: nat) < 7200 \<and>
   fst (run late_world ''sample.mp3'') = Inl JobTimeout \<and>
   trace (snd (run late_world ''sample.mp3'')) =
     trace (snd (submitted late_world ''sample.mp3'')) @
       [OperationResult 3600, Error JobTimeout]"
proof -
  have t: "terminal_after \<lparr>terminal_after = Some 7200, job_outcome = Inr sample_results\<rparr> = None \<or>
     (\<exists>t. terminal_after \<lparr>terminal_after = Some 7200, job_outcome = Inr sample_results\<rparr> = Some t \<and>
        60 * 60 < t)"
    by simp
  from job_timeout [OF late_submitted t] late_submitted
  show ?thesis by simp
qed

subsection \<open>The shape of the trace\<close>

lemma normalized_trace_prefix:
  assumes "normalized w i = (r, s)"
  shows "prefix (trace s) (complete_trace w i p project_id b ob tx)"
proof (cases r)
  case (Inl e)
  from normalized_Inl [OF assms [unfolded Inl]] show ?thesis
    by (auto simp add: complete_trace_def)
next
  case (Inr u)
  from normalized_Inr [OF assms [unfolded Inr]] show ?thesis
    by (auto simp add: complete_trace_def)
qed

lemma submitted_trace_prefix:
  assumes "submitted w i = (r, s)"
  shows "\<exists>p project_id. \<forall>b ob tx. prefix (trace s) (complete_trace w i p project_id b ob tx)"
proof (cases r)
  case (Inl e)
  from submitted_Inl [OF assms [unfolded Inl]] consider
    (before) "normalized w i = (Inl e, s)" |
    (nocred) s1 where "normalized w i = (Inr (), s1)" "trace s = trace s1" |
    (cred) s1 p where "normalized w i = (Inr (), s1)" "trace s = trace s1 @ [LoadCredentials p]" |
    (upload) s1 p where "normalized w i = (Inr (), s1)"
      "trace s = trace s1 @
         [LoadCredentials p, Upload gcs_input_bucket (unique_filename w i) (temp_audio_file i)]" |
    (submit) s1 p project_id where "normalized w i = (Inr (), s1)"
      "trace s = trace s1 @
         [LoadCredentials p, Upload gcs_input_bucket (unique_filename w i) (temp_audio_file i),
          Progress 40, Progress 42, Progress 50,
          BatchRecognize (build_request w project_id (audio_uri_of w i))]"
    by auto
  then show ?thesis
  proof cases
    case before
    then show ?thesis by (simp add: normalized_trace_prefix)
  next
    case nocred
    then show ?thesis by (simp add: normalized_trace_prefix)
  next
    case cred
    from normalized_Inr [OF cred(1)] cred(2) show ?thesis
      by (intro exI [of _ p]) (simp add: complete_trace_def)
  next
    case upload
    from normalized_Inr [OF upload(1)] upload(2) show ?thesis
      by (intro exI [of _ p]) (simp add: complete_trace_def)
  next
    case submit
    from normalized_Inr [OF submit(1)] submit(2) show ?thesis
      by (intro exI [of _ p] exI [of _ project_id]) (simp add: complete_trace_def)
  qed
next
  case (Inr v)
  obtain a operation where v: "v = (a, operation)" by (cases v)
  from submitted_Inr [OF assms [unfolded Inr v]] obtain s1 p project_id where
    n: "normalized w i = (Inr (), s1)" and a: "a = audio_uri_of w i" and
    t: "trace s = trace s1 @
       [LoadCredentials p,
        Upload gcs_input_bucket (unique_filename w i) (temp_audio_file i),
        Progress 40, Progress 42, Progress 50,
        BatchRecognize (build_request w project_id a), Progress 55]"
    by blast
  from normalized_Inr [OF n] t a show ?thesis
    by (intro exI [of _ p] exI [of _ project_id]) (simp add: complete_trace_def)
qed

lemma submitted_ok_trace:
  assumes "submitted w i = (Inr v, s)"
  shows "\<exists>p project_id.
     trace s =
       [Progress 5,
        WriteAudiofile (clip_kind_of w i) i (temp_audio_file i) 16000 ''pcm_s16le'' ffmpeg_params,
        Progress 33,
        LoadCredentials p,
        Upload gcs_input_bucket (unique_filename w i) (temp_audio_file i),
        Progress 40, Progress 42, Progress 50,
        BatchRecognize (build_request w project_id (audio_uri_of w i)),
        Progress 55]"
proof -
  obtain a operation where v: "v = (a, operation)" by (cases v)
  from submitted_Inr [OF assms [unfolded v]] obtain s1 p project_id where
    n: "normalized w i = (Inr (), s1)" and a: "a = audio_uri_of w i" and
    t: "trace s = trace s1 @
       [LoadCredentials p,
        Upload gcs_input_bucket (unique_filename w i) (temp_audio_file i),
        Progress 40, Progress 42, Progress 50,
        BatchRecognize (build_request w project_id a), Progress 55]"
    by blast
  from normalized_Inr [OF n] t a show ?thesis
    by (intro exI [of _ p] exI [of _ project_id]) simp
qed

lemma fetched_ok_trace:
  assumes "fetched w i = (Inr batch_results, s)"
  shows "\<exists>p project_id b ob.
     trace s =
       [Progress 5,
        WriteAudiofile (clip_kind_of w i) i (temp_audio_file i) 16000 ''pcm_s16le'' ffmpeg_params,
        Progress 33,
        LoadCredentials p,
        Upload gcs_input_bucket (unique_filename w i) (temp_audio_file i),
        Progress 40, Progress 42, Progress 50,
        BatchRecognize (build_request w project_id (audio_uri_of w i)),
        Progress 55, OperationResult 3600, Progress 75, Download b ob]"
  using fetched_ok [OF assms] by (elim exE conjE) (intro exI, assumption)

lemma fetched_trace_prefix:
  assumes "fetched w i = (r, s)"
  shows "\<exists>p project_id b ob. \<forall>tx. prefix (trace s) (complete_trace w i p project_id b ob tx)"
proof (cases r)
  case (Inl e)
  from fetched_Inl [OF assms [unfolded Inl]] consider
    (before) "submitted w i = (Inl e, s)" |
    (wait) v s2 where "submitted w i = (Inr v, s2)"
      "trace s = trace s2 @ [OperationResult 3600]" |
    (results) v s2 where "submitted w i = (Inr v, s2)"
      "trace s = trace s2 @ [OperationResult 3600, Progress 75]" |
    (download) v s2 b ob where "submitted w i = (Inr v, s2)"
      "trace s = trace s2 @ [OperationResult 3600, Progress 75, Download b ob]"
    by (elim disjE exE conjE) blast+
  then show ?thesis
  proof cases
    case before
    from submitted_trace_prefix [OF this] obtain p project_id where
      "\<forall>b ob tx. prefix (trace s) (complete_trace w i p project_id b ob tx)" by blast
    then show ?thesis by (intro exI [of _ p] exI [of _ project_id]) simp
  next
    case wait
    from submitted_ok_trace [OF wait(1)] obtain p project_id where
      "trace s2 = take 10 (complete_trace w i p project_id [] [] [])"
      by (auto simp add: complete_trace_def)
    with wait(2) show ?thesis
      by (intro exI [of _ p] exI [of _ project_id]) (simp add: complete_trace_def)
  next
    case results
    from submitted_ok_trace [OF results(1)] obtain p project_id where
      "trace s2 = take 10 (complete_trace w i p project_id [] [] [])"
      by (auto simp add: complete_trace_def)
    with results(2) show ?thesis
      by (intro exI [of _ p] exI [of _ project_id]) (simp add: complete_trace_def)
  next
    case download
    from submitted_ok_trace [OF download(1)] obtain p project_id where
      "trace s2 = take 10 (complete_trace w i p project_id [] [] [])"
      by (auto simp add: complete_trace_def)
    with download(2) show ?thesis
      by (intro exI [of _ p] exI [of _ project_id] exI [of _ b] exI [of _ ob])
         (simp add: complete_trace_def)
  qed
next
  case (Inr batch_results)
  from fetched_ok_trace [OF assms [unfolded Inr]] obtain p project_id b ob where
    "trace s = take 13 (complete_trace w i p project_id b ob [])"
    by (auto simp add: complete_trace_def)
  then show ?thesis
    by (intro exI [of _ p] exI [of _ project_id] exI [of _ b] exI [of _ ob])
       (simp add: complete_trace_def)
qed

lemma body_trace_prefix:
  assumes "body w i = (r, s)"
  shows "\<exists>p project_id b ob tx. prefix (trace s) (complete_trace w i p project_id b ob tx)"
proof (cases r)
  case (Inl e)
  from body_Inl [OF assms [unfolded Inl]] consider
    (before) "fetched w i = (Inl e, s)" |
    (index) batch_results s3 where "fetched w i = (Inr batch_results, s3)"
      "trace s = trace s3" |
    (written) batch_results s3 tx where "fetched w i = (Inr batch_results, s3)"
      "trace s = trace s3 @ [Progress 90, WriteText (output_file i) ''utf-8'' tx]" |
    (cleaned) batch_results s3 tx where "fetched w i = (Inr batch_results, s3)"
      "trace s = trace s3 @ [Progress 90, WriteText (output_file i) ''utf-8'' tx,
         Progress 100, Remove (temp_audio_file i)]"
    by (elim disjE exE conjE) blast+
  then show ?thesis
  proof cases
    case before
    from fetched_trace_prefix [OF this] obtain p project_id b ob where
      "\<forall>tx. prefix (trace s) (complete_trace w i p project_id b ob tx)" by blast
    then show ?thesis
      by (intro exI [of _ p] exI [of _ project_id] exI [of _ b] exI [of _ ob] exI [of _ "[]"])
         simp
  next
    case index
    from fetched_trace_prefix [OF index(1)] obtain p project_id b ob where
      "\<forall>tx. prefix (trace s3) (complete_trace w i p project_id b ob tx)" by blast
    with index(2) show ?thesis
      by (intro exI [of _ p] exI [of _ project_id] exI [of _ b] exI [of _ ob] exI [of _ "[]"])
         simp
  next
    case written
    from fetched_ok_trace [OF written(1)] obtain p project_id b ob where
      "trace s3 = take 13 (complete_trace w i p project_id b ob [])"
      by (auto simp add: complete_trace_def)
    with written(2) show ?thesis
      by (intro exI [of _ p] exI [of _ project_id] exI [of _ b] exI [of _ ob] exI [of _ tx])
         (simp add: complete_trace_def)
  next
    case cleaned
    from fetched_ok_trace [OF cleaned(1)] obtain p project_id b ob where
      "trace s3 = take 13 (complete_trace w i p project_id b ob [])"
      by (auto simp add: complete_trace_def)
    with cleaned(2) show ?thesis
      by (intro exI [of _ p] exI [of _ project_id] exI [of _ b] exI [of _ ob] exI [of _ tx])
         (simp add: complete_trace_def)
  qed
next
  case (Inr message)
  from body_Inr [OF assms [unfolded Inr]] obtain batch_results s3 tx where
    f: "fetched w i = (Inr batch_results, s3)" and
    m: "message = ''Transcription saved to '' @ output_file i" and
    t: "trace s = trace s3 @
       [Progress 90, WriteText (output_file i) ''utf-8'' tx, Progress 100,
        Remove (temp_audio_file i), Finished message]"
    by blast
  from fetched_ok_trace [OF f] obtain p project_id b ob where
    "trace s3 = take 13 (complete_trace w i p project_id b ob [])"
    by (auto simp add: complete_trace_def)
  with t m show ?thesis
    by (intro exI [of _ p] exI [of _ project_id] exI [of _ b] exI [of _ ob] exI [of _ tx])
       (simp add: complete_trace_def)
qed

lemma run_trace_events:
  "\<exists>p project_id b ob tx.
     set (trace (snd (run w i))) \<subseteq>
       set (complete_trace w i p project_id b ob tx) \<union> range Error"
proof -
  obtain r s where b: "body w i = (r, s)" by (cases "body w i")
  from body_trace_prefix [OF b] obtain p project_id b' ob tx where
    "prefix (trace s) (complete_trace w i p project_id b' ob tx)" by blast
  then have sub: "set (trace s) \<subseteq> set (complete_trace w i p project_id b' ob tx)"
    by (rule set_mono_prefix)
  have "trace (snd (run w i)) = trace s \<or> (\<exists>e. trace (snd (run w i)) = trace s @ [Error e])"
    using b by (cases r) (simp_all add: run_def)
  with sub have "set (trace (snd (run w i))) \<subseteq>
      set (complete_trace w i p project_id b' ob tx) \<union> range Error"
    by auto
  then show ?thesis by blast
qed

subsection \<open>The output address\<close>

lemma match_gs_uri_shape:
  assumes "bucket_object_shape address bucket rest"
  shows "match_gs_uri address = Some (bucket, takeWhile (\<lambda>c. c \<noteq> newline) rest)"
proof -
  from assms have a: "address = ''gs://'' @ bucket @ CHR ''/'' # rest"
    and b: "bucket \<noteq> []" and n: "CHR ''/'' \<notin> set bucket"
    by (simp_all add: bucket_object_shape_def)
  from a have t: "take 5 address = ''gs://''" and d: "drop 5 address = bucket @ CHR ''/'' # rest"
    by simp_all
  from n have tw: "takeWhile (\<lambda>c. c \<noteq> CHR ''/'') (bucket @ CHR ''/'' # rest) = bucket"
    by (subst takeWhile_append2) auto
  from n have dw: "dropWhile (\<lambda>c. c \<noteq> CHR ''/'') (bucket @ CHR ''/'' # rest) = CHR ''/'' # rest"
    by (subst dropWhile_append2) auto
  from t d tw dw b show ?thesis
    by (simp add: match_gs_uri_def Let_def)
qed

lemma match_gs_uri_Some:
  assumes "match_gs_uri address = Some (bucket, ob)"
  shows "\<exists>rest. bucket_object_shape address bucket rest \<and>
     ob = takeWhile (\<lambda>c. c \<noteq> newline) rest"
proof -
  let ?r = "drop 5 address"
  let ?after = "dropWhile (\<lambda>c. c \<noteq> CHR ''/'') ?r"
  from assms have t: "take 5 address = ''gs://''"
    and b: "bucket = takeWhile (\<lambda>c. c \<noteq> CHR ''/'') ?r" and bn: "bucket \<noteq> []"
    and an: "?after \<noteq> []"
    and o: "ob = takeWhile (\<lambda>c. c \<noteq> newline) (tl ?after)"
    by (auto simp add: match_gs_uri_def Let_def split: if_splits)
  from an have "\<not> (hd ?after \<noteq> CHR ''/'')" by (rule hd_dropWhile)
  with an have h: "?after = CHR ''/'' # tl ?after" by (cases ?after) auto
  have "address = take 5 address @ ?r" by simp
  also have "?r = bucket @ ?after" using b by simp
  finally have "address = ''gs://'' @ bucket @ CHR ''/'' # tl ?after"
    using t h by simp
  moreover from b have "CHR ''/'' \<notin> set bucket" by (auto dest: set_takeWhileD)
  ultimately have "bucket_object_shape address bucket (tl ?after)"
    using bn by (simp add: bucket_object_shape_def)
  with o show ?thesis by blast
qed

lemma match_gs_uri_None:
  "match_gs_uri address = None \<longleftrightarrow> \<not> (\<exists>bucket rest. bucket_object_shape address bucket rest)"
proof
  assume n: "match_gs_uri address = None"
  show "\<not> (\<exists>bucket rest. bucket_object_shape address bucket rest)"
  proof
    assume "\<exists>bucket rest. bucket_object_shape address bucket rest"
    then obtain bucket rest where "bucket_object_shape address bucket rest" by blast
    from match_gs_uri_shape [OF this] n show False by simp
  qed
next
  assume n: "\<not> (\<exists>bucket rest. bucket_object_shape address bucket rest)"
  show "match_gs_uri address = None"
  proof (cases "match_gs_uri address")
    case None
    then show ?thesis .
  next
    case (Some bo)
    obtain bucket ob where "bo = (bucket, ob)" by (cases bo)
    with Some match_gs_uri_Some [of address bucket ob] n show ?thesis by blast
  qed
qed

text \<open>
  Claim C5. An output address has the shape bucket/object when it is \<open>gs://\<close>, a bucket
  name that is not empty and has no slash, a slash, and the object name (which may be
  empty). When the address reported for the job has not this shape, the method fails with
  \<open>MalformedOutputURI\<close> and the state is what it was, so that nothing is downloaded. When
  it has, the one call made is the download, from the bucket of the address, of the object
  of the address up to its first line break; so of the whole object of the address when it
  has no line break.
\<close>

theorem output_address_parsed:
  "(\<not> (\<exists>bucket ob. bucket_object_shape (uri file_results) bucket ob) \<longrightarrow>
      fetch w file_results s = (Inl MalformedOutputURI, s)) \<and>
   (\<forall>bucket ob. bucket_object_shape (uri file_results) bucket ob \<longrightarrow>
      trace (snd (fetch w file_results s)) =
        trace s @ [Download bucket (takeWhile (\<lambda>c. c \<noteq> newline) ob)] \<and>
      fs (snd (fetch w file_results s)) = fs s) \<and>
   (\<forall>bucket ob. bucket_object_shape (uri file_results) bucket ob \<and> newline \<notin> set ob \<longrightarrow>
      trace (snd (fetch w file_results s)) = trace s @ [Download bucket ob])"
proof -
  have 1: "fetch w file_results s = (Inl MalformedOutputURI, s)"
    if "\<not> (\<exists>bucket ob. bucket_object_shape (uri file_results) bucket ob)"
  proof -
    from that have "match_gs_uri (uri file_results) = None"
      by (simp add: match_gs_uri_None)
    then show ?thesis by (simp add: fetch_def)
  qed
  have 2: "trace (snd (fetch w file_results s)) =
        trace s @ [Download bucket (takeWhile (\<lambda>c. c \<noteq> newline) ob)] \<and>
      fs (snd (fetch w file_results s)) = fs s"
    if "bucket_object_shape (uri file_results) bucket ob" for bucket ob
  proof -
    let ?o = "takeWhile (\<lambda>c. c \<noteq> newline) ob"
    from that have m: "match_gs_uri (uri file_results) = Some (bucket, ?o)"
      by (rule match_gs_uri_shape)
    show ?thesis
    proof (cases "download_as_bytes w bucket ?o")
      case (Inl msg)
      with m show ?thesis by (simp add: fetch_def Let_def)
    next
      case (Inr results_bytes)
      with m show ?thesis
        by (cases "from_json w results_bytes") (simp_all add: fetch_def Let_def)
    qed
  qed
  have 3: "trace (snd (fetch w file_results s)) = trace s @ [Download bucket ob]"
    if "bucket_object_shape (uri file_results) bucket ob \<and> newline \<notin> set ob" for bucket ob
  proof -
    from that have "takeWhile (\<lambda>c. c \<noteq> newline) ob = ob"
      by (intro takeWhile_eq_all_conv [THEN iffD2]) auto
    with 2 [of bucket ob] that show ?thesis by simp
  qed
  from 1 2 3 show ?thesis by blast
qed

theorem output_address_parsed_witness:
  "\<not> (\<exists>bucket ob. bucket_object_shape ''bucket-object'' bucket ob) \<and>
   fetch sample_world \<lparr>uri = ''bucket-object'', other_fields_set = True\<rparr>
     (initial sample_world) = (Inl MalformedOutputURI, initial sample_world) \<and>
   bucket_object_shape ''gs://out/transcript-0b.json'' ''out'' ''transcript-0b.json'' \<and>
   newline \<notin> set ''transcript-0b.json'' \<and>
   trace (snd (fetch sample_world
     \<lparr>uri = ''gs://out/transcript-0b.json'', other_fields_set = False\<rparr>
     (initial sample_world))) = [Download ''out'' ''transcript-0b.json'']"
proof -
  have "match_gs_uri ''bucket-object'' = None"
    by (simp add: match_gs_uri_def)
  then have n: "\<not> (\<exists>bucket ob. bucket_object_shape ''bucket-object'' bucket ob)"
    by (simp add: match_gs_uri_None)
  have m: "bucket_object_shape ''gs://out/transcript-0b.json'' ''out'' ''transcript-0b.json''"
    by (simp add: bucket_object_shape_def)
  have l: "newline \<notin> set ''transcript-0b.json''"
    by (simp add: newline_def)
  from output_address_parsed [of "\<lparr>uri = ''bucket-object'', other_fields_set = True\<rparr>"
      sample_world "initial sample_world"] n
  have a: "fetch sample_world \<lparr>uri = ''bucket-object'', other_fields_set = True\<rparr>
     (initial sample_world) = (Inl MalformedOutputURI, initial sample_world)"
    by simp
  from output_address_parsed
    [of "\<lparr>uri = ''gs://out/transcript-0b.json'', other_fields_set = False\<rparr>"
      sample_world "initial sample_world", THEN conjunct2, THEN conjunct2, rule_format,
      of "''out''" "''transcript-0b.json''"] m l
  have b: "trace (snd (fetch sample_world
     \<lparr>uri = ''gs://out/transcript-0b.json'', other_fields_set = False\<rparr>
     (initial sample_world))) = [Download ''out'' ''transcript-0b.json'']"
    by (simp add: initial_def)
  from n a m l b show ?thesis by simp
qed

subsection \<open>The request\<close>

lemma request_constants:
  "BatchRecognize request \<in> set (trace (snd (run w i))) \<Longrightarrow>
     language_codes request = [''id-ID''] \<and> model request = ''long'' \<and>
     auto_decoding_config request"
proof -
  assume a: "BatchRecognize request \<in> set (trace (snd (run w i)))"
  from run_trace_events [of w i] obtain p project_id b ob tx where
    "set (trace (snd (run w i))) \<subseteq> set (complete_trace w i p project_id b ob tx) \<union> range Error"
    by blast
  with a have "BatchRecognize request \<in> set (complete_trace w i p project_id b ob tx)"
    by auto
  then have "request = build_request w project_id (audio_uri_of w i)"
    by (simp add: complete_trace_def)
  then show ?thesis by (simp add: build_request_def)
qed

text \<open>
  Claim C1. The input and the output container of a run are to be those of the
  configuration. The method departs from this: with the input container \<open>in\<close> and the
  output container \<open>out\<close> in the environment, the upload goes to the bucket
  \<open>speech_to_text_python\<close>, and the request names this bucket for its input and for its
  output. The two names are the literals of lines 167-168; the settings
  \<open>GCS_INPUT_BUCKET\<close> and \<open>GCS_OUTPUT_BUCKET\<close>, which the docstring of the class
  requires and the message of line 170 names, are never read.
\<close>

theorem configured_containers_ignored:
  "environ sample_world ''GCS_INPUT_BUCKET'' = Some ''in'' \<and>
   environ sample_world ''GCS_OUTPUT_BUCKET'' = Some ''out'' \<and>
   Upload ''speech_to_text_python'' ''sample_temp.wav-0a.wav'' ''sample_temp.wav''
     \<in> set (trace (snd (run sample_world ''sample.mp3''))) \<and>
   BatchRecognize
     \<lparr>recognizer = ''projects/proj/locations/global/recognizers/_'',
      auto_decoding_config = True,
      language_codes = [''id-ID''],
      model = ''long'',
      request_files = [''gs://speech_to_text_python/sample_temp.wav-0a.wav''],
      gcs_output_config_uri = ''gs://speech_to_text_python/transcript-0b.json''\<rparr>
     \<in> set (trace (snd (run sample_world ''sample.mp3'')))"
  by (simp add: sample_run build_request_def gcs_output_bucket_def)

subsection \<open>The credentials\<close>

text \<open>
  Claim C4, as amended. Take the state in which the conversion ends. When the credential
  path is absent from the environment, or empty, or names no file that exists in that
  state (the temporary waveform file, under any of its names, does exist once it is
  written), the run uploads nothing; it fails with \<open>MissingCredential\<close> right after the
  conversion when the conversion has succeeded, and with the failure of the imports or of
  the conversion otherwise.
\<close>

theorem missing_credential:
  assumes "normalized w i = (r, s1)"
    and "environ w ''GOOGLE_APPLICATION_CREDENTIALS'' = None \<or>
     environ w ''GOOGLE_APPLICATION_CREDENTIALS'' = Some [] \<or>
     (\<exists>p. environ w ''GOOGLE_APPLICATION_CREDENTIALS'' = Some p \<and> \<not> path_exists w s1 p)"
  shows "filter is_upload (trace (snd (run w i))) = [] \<and>
     (r = Inr () \<longrightarrow> run w i = (Inl MissingCredential, emit (Error MissingCredential) s1)) \<and>
     (\<forall>e. r = Inl e \<longrightarrow> run w i = (Inl e, emit (Error e) s1))"
proof (cases r)
  case (Inl e)
  with assms(1) have "run w i = (Inl e, emit (Error e) s1)"
    by (simp add: run_def body_def fetched_def submitted_def and_then_def)
  moreover from normalized_Inl [OF assms(1) [unfolded Inl]]
  have "filter is_upload (trace s1) = []" by auto
  ultimately show ?thesis using Inl by simp
next
  case (Inr u)
  from normalized_Inr [OF assms(1) [unfolded Inr]]
  have t: "filter is_upload (trace s1) = []" by auto
  from assms(2) have "load_credentials w s1 = (Inl MissingCredential, s1)"
    by (auto simp add: load_credentials_def)
  with assms(1) Inr
  have "run w i = (Inl MissingCredential, emit (Error MissingCredential) s1)"
    by (simp add: run_def body_def fetched_def submitted_def and_then_def)
  with t Inr show ?thesis by simp
qed

lemma bare_normalized:
  "normalized bare_world ''sample.mp3'' = (Inr (), snd (normalized bare_world ''sample.mp3''))"
proof -
  have "fst (normalized bare_world ''sample.mp3'') = Inr ()"
    by (simp add: bare_world_def eval_defs)
  then show ?thesis by (simp add: prod_eq_iff)
qed

lemma keyless_normalized:
  "normalized keyless_world ''sample.mp3'' =
     (Inr (), snd (normalized keyless_world ''sample.mp3''))"
proof -
  have "fst (normalized keyless_world ''sample.mp3'') = Inr ()"
    by (simp add: keyless_world_def eval_defs)
  then show ?thesis by (simp add: prod_eq_iff)
qed

theorem missing_credential_witness:
  "environ bare_world ''GOOGLE_APPLICATION_CREDENTIALS'' = None \<and>
   normalized bare_world ''sample.mp3'' = (Inr (), snd (normalized bare_world ''sample.mp3'')) \<and>
   filter is_upload (trace (snd (run bare_world ''sample.mp3''))) = [] \<and>
   fst (run bare_world ''sample.mp3'') = Inl MissingCredential \<and>
   environ keyless_world ''GOOGLE_APPLICATION_CREDENTIALS'' = Some ''key.json'' \<and>
   \<not> path_exists keyless_world (snd (normalized keyless_world ''sample.mp3'')) ''key.json'' \<and>
   filter is_upload (trace (snd (run keyless_world ''sample.mp3''))) = [] \<and>
   fst (run keyless_world ''sample.mp3'') = Inl MissingCredential"
proof -
  have e: "environ bare_world ''GOOGLE_APPLICATION_CREDENTIALS'' = None"
    by (simp add: bare_world_def)
  then have h: "environ bare_world ''GOOGLE_APPLICATION_CREDENTIALS'' = None \<or>
     environ bare_world ''GOOGLE_APPLICATION_CREDENTIALS'' = Some [] \<or>
     (\<exists>p. environ bare_world ''GOOGLE_APPLICATION_CREDENTIALS'' = Some p \<and>
        \<not> path_exists bare_world (snd (normalized bare_world ''sample.mp3'')) p)"
    by simp
  have k: "environ keyless_world ''GOOGLE_APPLICATION_CREDENTIALS'' = Some ''key.json''"
    by (simp add: keyless_world_def)
  have x: "\<not> path_exists keyless_world (snd (normalized keyless_world ''sample.mp3''))
      ''key.json''"
    by (simp add: keyless_world_def eval_defs)
  from k x have g: "environ keyless_world ''GOOGLE_APPLICATION_CREDENTIALS'' = None \<or>
     environ keyless_world ''GOOGLE_APPLICATION_CREDENTIALS'' = Some [] \<or>
     (\<exists>p. environ keyless_world ''GOOGLE_APPLICATION_CREDENTIALS'' = Some p \<and>
        \<not> path_exists keyless_world (snd (normalized keyless_world ''sample.mp3'')) p)"
    by simp
  from missing_credential [OF bare_normalized h] missing_credential [OF keyless_normalized g]
    bare_normalized e k x
  show ?thesis by (elim conjE) simp
qed

text \<open>
  The claim as it is written fails: without a credential path, a run on an input whose
  extension is not supported fails with \<open>UnsupportedFormat\<close>, since the extension is
  checked first.
\<close>

theorem missing_credential_counterexample:
  "environ bare_world ''GOOGLE_APPLICATION_CREDENTIALS'' = None \<and>
   fst (run bare_world ''sample.xyz'') = Inl UnsupportedFormat \<and>
   UnsupportedFormat \<noteq> MissingCredential"
  by (simp add: bare_world_def run_def body_def eval_defs)

subsection \<open>The conversion and the temporary file\<close>




lemma submitted_frame:
  assumes "submitted w i = (r, s)" and "normalized w i = (r1, s1)"
  shows "fs s = fs s1"
proof (cases r)
  case (Inl e)
  from submitted_Inl [OF assms(1) [unfolded Inl]] assms(2) show ?thesis by auto
next
  case (Inr v)
  obtain a operation where v: "v = (a, operation)" by (cases v)
  from submitted_Inr [OF assms(1) [unfolded Inr v]] assms(2) show ?thesis by auto
qed

lemma fetched_frame:
  assumes "fetched w i = (r, s)" and "normalized w i = (r1, s1)"
  shows "fs s = fs s1"
proof -
  obtain r2 s2 where s2: "submitted w i = (r2, s2)" by (cases "submitted w i")
  note f2 = submitted_frame [OF s2 assms(2)]
  show ?thesis
  proof (cases r)
    case (Inl e)
    from fetched_Inl [OF assms(1) [unfolded Inl]] s2 f2 show ?thesis by auto
  next
    case (Inr batch_results)
    from fetched_Inr [OF assms(1) [unfolded Inr]] s2 f2 show ?thesis by auto
  qed
qed

lemma body_fail_frame:
  assumes "body w i = (Inl e, s)" and "normalized w i = (r1, s1)"
  shows "fs s (temp_audio_file i) = fs s1 (temp_audio_file i)"
proof -
  obtain r3 s3 where s3: "fetched w i = (r3, s3)" by (cases "fetched w i")
  note f3 = fetched_frame [OF s3 assms(2)]
  from body_Inl [OF assms(1)] s3 f3 show ?thesis
    by (auto simp add: output_not_temp output_not_temp [symmetric])
qed

text \<open>
  Claim C8. A run that succeeds has removed the temporary waveform file, which the
  conversion had created: at the end nothing is at its path. A run that fails leaves at
  that path exactly what the conversion left there, whatever the stage that failed.
\<close>

theorem temporary_file_removed_on_success_only:
  "(\<forall>message s. run w i = (Inr message, s) \<longrightarrow>
      fs s (temp_audio_file i) = None \<and>
      Remove (temp_audio_file i) \<in> set (trace s) \<and>
      (\<exists>s1 channels. normalized w i = (Inr (), s1) \<and>
         fs s1 (temp_audio_file i) = Some (WaveFile 16000 ''pcm_s16le'' channels))) \<and>
   (\<forall>e s r1 s1. run w i = (Inl e, s) \<and> normalized w i = (r1, s1) \<longrightarrow>
      fs s (temp_audio_file i) = fs s1 (temp_audio_file i))"
proof (intro conjI allI impI)
  fix message s
  assume "run w i = (Inr message, s)"
  then have b: "body w i = (Inr message, s)" by (simp add: run_Inr)
  from body_Inr [OF b] show "fs s (temp_audio_file i) = None" by auto
  from body_Inr [OF b] show "Remove (temp_audio_file i) \<in> set (trace s)" by auto
  from body_Inr [OF b] obtain batch_results s3 where
    f: "fetched w i = (Inr batch_results, s3)" by blast
  from fetched_Inr [OF f] obtain a operation s2 where
    s2: "submitted w i = (Inr (a, operation), s2)" by blast
  from submitted_Inr [OF s2] obtain s1 where n: "normalized w i = (Inr (), s1)" by blast
  from normalized_Inr [OF n] n
  show "\<exists>s1 channels. normalized w i = (Inr (), s1) \<and>
         fs s1 (temp_audio_file i) = Some (WaveFile 16000 ''pcm_s16le'' channels)"
    by auto
next
  fix e s r1 s1
  assume a: "run w i = (Inl e, s) \<and> normalized w i = (r1, s1)"
  then obtain s0 where b: "body w i = (Inl e, s0)" and s: "s = emit (Error e) s0"
    by (auto simp add: run_Inl)
  from body_fail_frame [OF b] a s
  show "fs s (temp_audio_file i) = fs s1 (temp_audio_file i)" by simp
qed

lemma bare_run:
  "run bare_world ''sample.mp3'' = (Inl MissingCredential, snd (run bare_world ''sample.mp3''))"
proof -
  have "fst (run bare_world ''sample.mp3'') = Inl MissingCredential"
    by (simp add: bare_world_def run_def body_def eval_defs)
  then show ?thesis by (simp add: prod_eq_iff)
qed

theorem temporary_file_removed_on_success_only_witness:
  "run sample_world ''sample.mp3'' =
     (Inr ''Transcription saved to sample.txt'', snd (run sample_world ''sample.mp3'')) \<and>
   fs (snd (run sample_world ''sample.mp3'')) ''sample_temp.wav'' = None \<and>
   run bare_world ''sample.mp3'' = (Inl MissingCredential, snd (run bare_world ''sample.mp3'')) \<and>
   fs (snd (run bare_world ''sample.mp3'')) ''sample_temp.wav'' =
     Some (WaveFile 16000 ''pcm_s16le'' 2)"
proof -
  have a: "run sample_world ''sample.mp3'' =
     (Inr ''Transcription saved to sample.txt'', snd (run sample_world ''sample.mp3''))"
    by (simp add: sample_run)
  have n: "normalized bare_world ''sample.mp3'' =
      (fst (normalized bare_world ''sample.mp3''), snd (normalized bare_world ''sample.mp3''))"
    by simp
  have w: "fs (snd (normalized bare_world ''sample.mp3'')) ''sample_temp.wav'' =
     Some (WaveFile 16000 ''pcm_s16le'' 2)"
    by (simp add: bare_world_def eval_defs)
  from temporary_file_removed_on_success_only [of sample_world "''sample.mp3''"] a
  have 1: "fs (snd (run sample_world ''sample.mp3'')) ''sample_temp.wav'' = None"
    by (metis sample_paths(1))
  from temporary_file_removed_on_success_only [of bare_world "''sample.mp3''"] bare_run n
  have "fs (snd (run bare_world ''sample.mp3'')) ''sample_temp.wav'' =
     fs (snd (normalized bare_world ''sample.mp3'')) ''sample_temp.wav''"
    by (metis sample_paths(1))
  with w 1 a bare_run show ?thesis by simp
qed

subsection \<open>The output path\<close>

lemma rfind_bounds: "- 1 \<le> rfind c xs \<and> rfind c xs < int (length xs)"
  by (induction xs) (auto simp add: Let_def)

lemma rfind_neg_iff: "rfind c xs < 0 \<longleftrightarrow> c \<notin> set xs"
  by (induction xs) (auto simp add: Let_def)

lemma rfind_notin: "c \<notin> set xs \<Longrightarrow> rfind c xs = - 1"
  using rfind_bounds [of c xs] rfind_neg_iff [of c xs] by simp

lemma rfind_in: "c \<in> set xs \<Longrightarrow> 0 \<le> rfind c xs"
  using rfind_neg_iff [of c xs] by simp

lemma rfind_append:
  "rfind c (xs @ ys) =
     (if c \<in> set ys then int (length xs) + rfind c ys else rfind c xs)"
proof (induction xs)
  case Nil
  then show ?case by (simp add: rfind_notin)
next
  case (Cons x xs)
  show ?case
  proof (cases "c \<in> set ys")
    case True
    with Cons rfind_in [OF True] show ?thesis by (simp add: Let_def)
  next
    case False
    with Cons show ?thesis by (simp add: Let_def)
  qed
qed

lemma splitext_loop_iff:
  "splitext_loop p a b \<longleftrightarrow> (\<exists>j. a \<le> j \<and> j < b \<and> p ! j \<noteq> CHR ''.'')"
proof (induction p a b rule: splitext_loop.induct)
  case (1 p a b)
  show ?case
  proof (cases "a < b")
    case False
    then show ?thesis by (subst splitext_loop.simps) auto
  next
    case True
    show ?thesis
    proof (cases "p ! a \<noteq> CHR ''.''")
      case True
      with \<open>a < b\<close> show ?thesis by (subst splitext_loop.simps) auto
    next
      case False
      with \<open>a < b\<close> have "splitext_loop p a b = splitext_loop p (Suc a) b"
        by (subst splitext_loop.simps) simp
      also from 1 \<open>a < b\<close> False
      have "\<dots> \<longleftrightarrow> (\<exists>j. Suc a \<le> j \<and> j < b \<and> p ! j \<noteq> CHR ''.'')" by simp
      also have "\<dots> \<longleftrightarrow> (\<exists>j. a \<le> j \<and> j < b \<and> p ! j \<noteq> CHR ''.'')"
      proof
        assume "\<exists>j. Suc a \<le> j \<and> j < b \<and> p ! j \<noteq> CHR ''.''"
        then show "\<exists>j. a \<le> j \<and> j < b \<and> p ! j \<noteq> CHR ''.''" by (auto intro: Suc_leD)
      next
        assume "\<exists>j. a \<le> j \<and> j < b \<and> p ! j \<noteq> CHR ''.''"
        then obtain j where j: "a \<le> j" "j < b" "p ! j \<noteq> CHR ''.''" by blast
        with False have "j \<noteq> a" by auto
        with j have "Suc a \<le> j" by simp
        with j show "\<exists>j. Suc a \<le> j \<and> j < b \<and> p ! j \<noteq> CHR ''.''" by blast
      qed
      finally show ?thesis .
    qed
  qed
qed

lemma splitext_append: "fst (splitext p) @ snd (splitext p) = p"
  by (simp add: splitext_def Let_def)

lemma splitext_no_sep: "CHR ''/'' \<notin> set (snd (splitext p))"
proof (cases "snd (splitext p) = []")
  case True
  then show ?thesis by simp
next
  case False
  let ?d = "nat (rfind CHR ''.'' p)"
  from False have gt: "rfind CHR ''/'' p < rfind CHR ''.'' p"
    and e: "snd (splitext p) = drop ?d p"
    by (auto simp add: splitext_def Let_def split: if_splits)
  from gt rfind_bounds [of "CHR ''/''" p] have d0: "0 \<le> rfind CHR ''.'' p" by simp
  from rfind_bounds [of "CHR ''.''" p] d0 have dl: "?d < length p" by simp
  show ?thesis
  proof
    assume "CHR ''/'' \<in> set (snd (splitext p))"
    with e have m: "CHR ''/'' \<in> set (drop ?d p)" by simp
    from m rfind_append [of "CHR ''/''" "take ?d p" "drop ?d p"]
    have "rfind CHR ''/'' p = int (length (take ?d p)) + rfind CHR ''/'' (drop ?d p)"
      by simp
    moreover from dl have "int (length (take ?d p)) = int ?d" by simp
    moreover from d0 have "int ?d = rfind CHR ''.'' p" by simp
    moreover note rfind_in [OF m] gt
    ultimately show False by linarith
  qed
qed

lemma dirname_append:
  assumes "CHR ''/'' \<notin> set z"
  shows "dirname (b @ z) = dirname b"
proof -
  from assms have r: "rfind CHR ''/'' (b @ z) = rfind CHR ''/'' b"
    by (simp add: rfind_append)
  from rfind_bounds [of "CHR ''/''" b] have "nat (rfind CHR ''/'' b + 1) \<le> length b"
    by (simp add: nat_le_iff)
  with r show ?thesis by (simp add: dirname_def)
qed

lemma splitext_name:
  assumes d: "dir = [] \<or> last dir = CHR ''/''"
    and n: "CHR ''/'' \<notin> set name" and nd: "\<exists>c\<in>set name. c \<noteq> CHR ''.''"
    and e: "CHR ''.'' \<notin> set ext" "CHR ''/'' \<notin> set ext"
  shows "splitext (dir @ name @ ''.'' @ ext) = (dir @ name, ''.'' @ ext)"
proof -
  let ?p = "dir @ name @ ''.'' @ ext"
  have dot: "rfind CHR ''.'' ?p = int (length (dir @ name))"
  proof -
    from e(1) rfind_append [of "CHR ''.''" "dir @ name @ ''.''" ext]
    have "rfind CHR ''.'' ?p = rfind CHR ''.'' (dir @ name @ ''.'')" by simp
    also from rfind_append [of "CHR ''.''" "dir @ name" "''.''"]
    have "\<dots> = int (length (dir @ name))" by (simp add: Let_def)
    finally show ?thesis .
  qed
  have sep: "rfind CHR ''/'' ?p = int (length dir) - 1"
  proof -
    from n e(2) have "CHR ''/'' \<notin> set (name @ ''.'' @ ext)" by simp
    with rfind_append [of "CHR ''/''" dir "name @ ''.'' @ ext"]
    have "rfind CHR ''/'' ?p = rfind CHR ''/'' dir" by simp
    also have "\<dots> = int (length dir) - 1"
    proof (cases "dir = []")
      case True
      then show ?thesis by simp
    next
      case False
      with d have "dir = butlast dir @ [CHR ''/'']"
        by (metis append_butlast_last_id)
      then have "rfind CHR ''/'' dir = rfind CHR ''/'' (butlast dir @ [CHR ''/''])" by simp
      also from rfind_append [of "CHR ''/''" "butlast dir" "[CHR ''/'']"]
      have "\<dots> = int (length (butlast dir))" by (simp add: Let_def)
      finally show ?thesis using False by (cases dir) simp_all
    qed
    finally show ?thesis .
  qed
  from nd obtain k where k: "k < length name" "name ! k \<noteq> CHR ''.''"
    by (auto simp add: in_set_conv_nth)
  have "splitext_loop ?p (length dir) (length (dir @ name))"
  proof -
    from k have "?p ! (length dir + k) \<noteq> CHR ''.''"
      by (simp add: nth_append)
    with k show ?thesis
      by (subst splitext_loop_iff) (intro exI [of _ "length dir + k"], simp)
  qed
  with dot sep show ?thesis
    by (simp add: splitext_def Let_def nat_int_add)
qed

text \<open>
  Claim C10. Every text that a run writes goes to the path made of the input path without
  its extension, and of \<open>.txt\<close>; the extension has no separator, so that the directory is
  that of the input. For an input in a directory, with a name that is not made of dots
  only and an extension after its last dot, this is the path of the name with the
  extension \<open>.txt\<close> in that directory. A run that succeeds has written the text there,
  whatever the path held before.
\<close>

theorem transcript_path:
  "(\<forall>p enc tx. WriteText p enc tx \<in> set (trace (snd (run w i))) \<longrightarrow>
      p = output_file i \<and> enc = ''utf-8'') \<and>
   (\<forall>message s. run w i = (Inr message, s) \<longrightarrow>
      (\<exists>tx. WriteText (output_file i) ''utf-8'' tx \<in> set (trace s) \<and>
         fs s (output_file i) = Some (TextFile ''utf-8'' tx))) \<and>
   i = fst (splitext i) @ snd (splitext i) \<and>
   output_file i = fst (splitext i) @ ''.txt'' \<and>
   CHR ''/'' \<notin> set (snd (splitext i)) \<and>
   dirname (output_file i) = dirname i \<and>
   (\<forall>dir name ext.
      i = dir @ name @ ''.'' @ ext \<and> (dir = [] \<or> last dir = CHR ''/'') \<and>
      CHR ''/'' \<notin> set name \<and> (\<exists>c\<in>set name. c \<noteq> CHR ''.'') \<and>
      CHR ''.'' \<notin> set ext \<and> CHR ''/'' \<notin> set ext \<longrightarrow>
      output_file i = dir @ name @ ''.txt'')"
proof (intro conjI allI impI)
  fix p enc tx
  assume a: "WriteText p enc tx \<in> set (trace (snd (run w i)))"
  from run_trace_events [of w i] obtain c project_id b ob tx' where
    "set (trace (snd (run w i))) \<subseteq> set (complete_trace w i c project_id b ob tx') \<union> range Error"
    by blast
  with a have "WriteText p enc tx \<in> set (complete_trace w i c project_id b ob tx')"
    by auto
  then have "p = output_file i \<and> enc = ''utf-8''"
    by (simp add: complete_trace_def)
  then show "p = output_file i" and "enc = ''utf-8''" by simp_all
next
  fix message s
  assume "run w i = (Inr message, s)"
  then have b: "body w i = (Inr message, s)" by (simp add: run_Inr)
  from body_Inr [OF b]
  show "\<exists>tx. WriteText (output_file i) ''utf-8'' tx \<in> set (trace s) \<and>
         fs s (output_file i) = Some (TextFile ''utf-8'' tx)"
    by (auto simp add: output_not_temp)
next
  show "i = fst (splitext i) @ snd (splitext i)" by (simp add: splitext_append)
next
  show "output_file i = fst (splitext i) @ ''.txt''" by (simp add: output_file_def)
next
  show "CHR ''/'' \<notin> set (snd (splitext i))" by (rule splitext_no_sep)
next
  have "dirname (output_file i) = dirname (fst (splitext i))"
    unfolding output_file_def by (rule dirname_append) simp
  also have "\<dots> = dirname (fst (splitext i) @ snd (splitext i))"
    by (rule dirname_append [symmetric]) (rule splitext_no_sep)
  finally show "dirname (output_file i) = dirname i" by (simp add: splitext_append)
next
  fix dir name ext
  assume a: "i = dir @ name @ ''.'' @ ext \<and> (dir = [] \<or> last dir = CHR ''/'') \<and>
      CHR ''/'' \<notin> set name \<and> (\<exists>c\<in>set name. c \<noteq> CHR ''.'') \<and>
      CHR ''.'' \<notin> set ext \<and> CHR ''/'' \<notin> set ext"
  then have "splitext i = (dir @ name, ''.'' @ ext)"
    using splitext_name [of dir name ext] by blast
  then show "output_file i = dir @ name @ ''.txt''" by (simp add: output_file_def)
qed

theorem transcript_path_witness:
  "''clips/sample.MP3'' = ''clips/'' @ ''sample'' @ ''.'' @ ''MP3'' \<and>
   last ''clips/'' = CHR ''/'' \<and>
   CHR ''/'' \<notin> set ''sample'' \<and> CHR ''s'' \<in> set ''sample'' \<and> CHR ''s'' \<noteq> CHR ''.'' \<and>
   CHR ''.'' \<notin> set ''MP3'' \<and> CHR ''/'' \<notin> set ''MP3'' \<and>
   output_file ''clips/sample.MP3'' = ''clips/sample.txt'' \<and>
   dirname (output_file ''clips/sample.MP3'') = dirname ''clips/sample.MP3'' \<and>
   run sample_world ''sample.mp3'' =
     (Inr ''Transcription saved to sample.txt'', snd (run sample_world ''sample.mp3'')) \<and>
   WriteText ''sample.txt'' ''utf-8'' (''test transcript'' @ [newline])
     \<in> set (trace (snd (run sample_world ''sample.mp3''))) \<and>
   fs (snd (run sample_world ''sample.mp3'')) ''sample.txt'' =
     Some (TextFile ''utf-8'' (''test transcript'' @ [newline]))"
proof -
  have h: "''clips/sample.MP3'' = ''clips/'' @ ''sample'' @ ''.'' @ ''MP3'' \<and>
      (''clips/'' = [] \<or> last ''clips/'' = CHR ''/'') \<and>
      CHR ''/'' \<notin> set ''sample'' \<and> (\<exists>c\<in>set ''sample''. c \<noteq> CHR ''.'') \<and>
      CHR ''.'' \<notin> set ''MP3'' \<and> CHR ''/'' \<notin> set ''MP3''"
    by simp
  from transcript_path [of sample_world "''clips/sample.MP3''", THEN conjunct2, THEN conjunct2,
      THEN conjunct2, THEN conjunct2, THEN conjunct2, THEN conjunct2, rule_format, OF h]
  have o: "output_file ''clips/sample.MP3'' = ''clips/sample.txt''" by simp
  from transcript_path [of sample_world "''clips/sample.MP3''"]
  have d: "dirname (output_file ''clips/sample.MP3'') = dirname ''clips/sample.MP3''" by blast
  have r: "run sample_world ''sample.mp3'' =
     (Inr ''Transcription saved to sample.txt'', snd (run sample_world ''sample.mp3''))"
    by (simp add: sample_run)
  have t: "WriteText ''sample.txt'' ''utf-8'' (''test transcript'' @ [newline])
     \<in> set (trace (snd (run sample_world ''sample.mp3'')))"
    by (simp add: sample_run)
  from transcript_path [of sample_world "''sample.mp3''", THEN conjunct1, rule_format, OF t]
  have "''sample.txt'' = output_file ''sample.mp3''" by simp
  have f: "fs (snd (run sample_world ''sample.mp3'')) ''sample.txt'' =
     Some (TextFile ''utf-8'' (''test transcript'' @ [newline]))"
    by (simp add: sample_run)
  from h o d r t f show ?thesis by simp
qed

end
